theory Spec2Isabelle
  imports Main "HOL-Library.AList" "HOL-Library.Sublist"
begin

section \<open>The better-sqlite3 driver: connection lifecycle and attached databases\<close>

text \<open>
  A shallow embedding of \<^verbatim>\<open>src/driver/better-sqlite3/BetterSqlite3Driver.ts\<close>.
  Methods of the class become functions that take the driver object (\<open>this\<close>) and return
  the updated one; every call that leaves the class (the file system, the engine binding,
  the data source's \<open>query\<close>) is recorded as an event of a trace and may fail; a thrown
  exception or rejected promise is the \<open>Inl\<close> of a sum.
\<close>

subsection \<open>Errors and opaque objects\<close>

text \<open>
  \<open>DriverPackageNotInstalledError driverName packageName\<close> is the error the class throws
  itself. \<open>TypeError\<close> is what the JavaScript runtime throws when a method is called on
  \<open>undefined\<close> or a non-string reaches \<open>path.join\<close>. \<open>InvalidConnection\<close> is the error
  the specification names for disconnect; \<open>ExternalError\<close> is a failure reported by a
  collaborator (file system, engine binding, hook, data source).
\<close>

datatype error =
    DriverPackageNotInstalledError string string
  | TypeError
  | InvalidConnection
  | ExternalError string

text \<open>The engine binding (the module that \<open>this.sqlite\<close> refers to), a physical connection
  handle returned by it, a user callback, and the query runner object are opaque.\<close>

datatype binding = Binding string
datatype handle = Handle nat
datatype callback = Callback nat
datatype query_runner = BetterSqlite3QueryRunner

subsection \<open>Node's \<open>path\<close> module (POSIX flavour)\<close>

text \<open>\<open>path.dirname\<close>: the loop scans from the last character down to index 1, skipping
  trailing separators, and stops at the first separator after a non-separator.\<close>

fun dirname_scan :: "string \<Rightarrow> nat \<Rightarrow> bool \<Rightarrow> nat option" where
  "dirname_scan path 0 matchedSlash = None"
| "dirname_scan path (Suc j) matchedSlash =
     (if path ! Suc j = CHR ''/''
      then (if \<not> matchedSlash then Some (Suc j) else dirname_scan path j matchedSlash)
      else dirname_scan path j False)"

definition path_dirname :: "string \<Rightarrow> string" where
  "path_dirname path =
     (if path = [] then ''.''
      else
        (let hasRoot = (hd path = CHR ''/'') in
         case dirname_scan path (length path - 1) True of
           None \<Rightarrow> (if hasRoot then ''/'' else ''.'')
         | Some end \<Rightarrow> (if hasRoot \<and> end = 1 then ''//'' else take end path)))"

text \<open>\<open>path.normalize\<close> works on the segments between separators: empty and \<open>.\<close> segments
  are dropped, \<open>..\<close> removes the segment before it, and is kept only in a relative path
  that has nothing left to remove. The accumulator holds the kept segments, last first.\<close>

fun split_sep :: "string \<Rightarrow> string \<Rightarrow> string list" where
  "split_sep cur [] = [rev cur]"
| "split_sep cur (c # cs) =
     (if c = CHR ''/'' then rev cur # split_sep [] cs else split_sep (c # cur) cs)"

fun join_sep :: "string list \<Rightarrow> string" where
  "join_sep [] = []"
| "join_sep [s] = s"
| "join_sep (s # t # ts) = s @ ''/'' @ join_sep (t # ts)"

fun normalizeString :: "bool \<Rightarrow> string list \<Rightarrow> string list \<Rightarrow> string list" where
  "normalizeString allowAboveRoot [] res = rev res"
| "normalizeString allowAboveRoot (s # ss) res =
     (if s = [] \<or> s = ''.'' then normalizeString allowAboveRoot ss res
      else if s = ''..'' then
        (case res of
           [] \<Rightarrow> normalizeString allowAboveRoot ss (if allowAboveRoot then [''..''] else [])
         | t # ts \<Rightarrow>
             (if t = ''..''
              then normalizeString allowAboveRoot ss (if allowAboveRoot then ''..'' # res else res)
              else normalizeString allowAboveRoot ss ts))
      else normalizeString allowAboveRoot ss (s # res))"

definition path_normalize :: "string \<Rightarrow> string" where
  "path_normalize path =
     (if path = [] then ''.''
      else
        (let isAbs = (hd path = CHR ''/'');
             trailingSeparator = (last path = CHR ''/'');
             p = join_sep (normalizeString (\<not> isAbs) (split_sep [] path) [])
         in if p = [] then (if isAbs then ''/'' else if trailingSeparator then ''./'' else ''.'')
            else
              (let p' = (if trailingSeparator then p @ ''/'' else p)
               in if isAbs then ''/'' @ p' else p')))"

text \<open>\<open>path.join\<close> of string arguments: the non-empty ones, joined by the separator and
  normalised. (A non-string argument makes Node throw; the callers below model that.)\<close>

definition path_join :: "string list \<Rightarrow> string" where
  "path_join args =
     (let joined = filter (\<lambda>arg. arg \<noteq> []) args
      in if joined = [] then ''.'' else path_normalize (join_sep joined))"

subsection \<open>JavaScript helpers\<close>

text \<open>Truthiness of an optional string: \<open>undefined\<close> and the empty string are falsy.\<close>

definition truthy :: "string option \<Rightarrow> bool" where
  "truthy v = (case v of None \<Rightarrow> False | Some s \<Rightarrow> s \<noteq> [])"

text \<open>\<open>JSON.stringify\<close> of a string: quoted, with the quote, the backslash and the control
  characters escaped.\<close>

definition hex_digit :: "nat \<Rightarrow> char" where
  "hex_digit n = ''0123456789abcdef'' ! (n mod 16)"

definition json_escape :: "char \<Rightarrow> string" where
  "json_escape c =
     (if c = CHR 0x22 then [CHR 0x5C, CHR 0x22]
      else if c = CHR 0x5C then [CHR 0x5C, CHR 0x5C]
      else if c = CHR 0x08 then [CHR 0x5C, CHR ''b'']
      else if c = CHR 0x0C then [CHR 0x5C, CHR ''f'']
      else if c = CHR 0x0A then [CHR 0x5C, CHR ''n'']
      else if c = CHR 0x0D then [CHR 0x5C, CHR ''r'']
      else if c = CHR 0x09 then [CHR 0x5C, CHR ''t'']
      else if (of_char c :: nat) < 32
        then [CHR 0x5C, CHR ''u'', CHR ''0'', CHR ''0'',
              hex_digit (of_char c div 16), hex_digit (of_char c)]
      else [c])"

definition JSON_stringify :: "string \<Rightarrow> string" where
  "JSON_stringify s = [CHR 0x22] @ concat (map json_escape s) @ [CHR 0x22]"

text \<open>
  A plain object used as a dictionary of objects: an association list in the order the
  keys were created; assigning to an existing key keeps its place (\<open>AList.update\<close>).

  The name \<open>__proto__\<close> is not a property. Assigning an object to it sets the prototype of
  the dictionary, and reading it returns the prototype. The pair under the key
  \<open>__proto__\<close>, if there is one, stands for that prototype: it is written and read like
  every other pair, but it is not one of the object's own properties. Reading any other
  name that is not an own property finds, through the prototype chain, only strings and
  built-in functions, none of which has an \<open>attachHandle\<close>; so a lookup by \<open>map_of\<close> sees
  exactly the handles the code sees.

  \<open>Object.values\<close> enumerates the own properties: the keys that are array indices
  (canonical decimal numerals below \<open>2^32 - 1\<close>) first, in ascending numeric order, then
  every other key in creation order.
\<close>

definition own_properties :: "(string \<times> 'v) list \<Rightarrow> (string \<times> 'v) list" where
  "own_properties obj = filter (\<lambda>kv. fst kv \<noteq> ''__proto__'') obj"

definition is_digit :: "char \<Rightarrow> bool" where
  "is_digit c = ((48::nat) \<le> of_char c \<and> (of_char c :: nat) \<le> 57)"

definition decimal_value :: "string \<Rightarrow> int" where
  "decimal_value s = foldl (\<lambda>n c. 10 * n + (of_char c - 48)) 0 s"

definition is_array_index :: "string \<Rightarrow> bool" where
  "is_array_index s =
     (s \<noteq> [] \<and> list_all is_digit s \<and> (length s = 1 \<or> hd s \<noteq> CHR ''0'')
      \<and> decimal_value s < 4294967295)"

definition Object_values :: "(string \<times> 'v) list \<Rightarrow> 'v list" where
  "Object_values obj =
     map snd (sort_key (\<lambda>kv. decimal_value (fst kv))
                (filter (\<lambda>kv. is_array_index (fst kv)) (own_properties obj))
              @ filter (\<lambda>kv. \<not> is_array_index (fst kv)) (own_properties obj))"

subsection \<open>Data model\<close>

text \<open>\<open>BetterSqlite3ConnectionOptions\<close>, restricted to the fields the driver reads. An
  optional field that was not supplied is \<open>None\<close>.\<close>

record BetterSqlite3ConnectionOptions =
  database :: string
  driver :: "binding option"
  key :: "string option"
  prepareDatabase :: "callback option"
  readonly :: "bool option"
  fileMustExist :: "bool option"
  timeout :: "int option"
  verbose :: "callback option"
  nativeBinding :: "string option"
  enableWAL :: "bool option"
  baseDirectory :: "string option"

text \<open>The second argument of the binding's constructor call, after the destructuring
  defaults have been applied.\<close>

record open_options =
  opt_readonly :: bool
  opt_fileMustExist :: bool
  opt_timeout :: int
  opt_verbose :: "callback option"
  opt_nativeBinding :: "string option"

text \<open>One entry of \<open>this.attachedDatabases\<close>.\<close>

record AttachedDatabase =
  attachFilepathAbsolute :: string
  attachFilepathRelative :: string
  attachHandle :: string

text \<open>
  The driver object. \<open>queryRunner\<close>, \<open>databaseConnection\<close> and \<open>attachedDatabases\<close> are
  declared by the parent class \<open>AbstractSqliteDriver\<close>; a field that is still \<open>undefined\<close>
  is \<open>None\<close>, and the registry starts as the empty object.
\<close>

record BetterSqlite3Driver =
  options :: BetterSqlite3ConnectionOptions
  this_database :: string
  sqlite :: "binding option"
  queryRunner :: "query_runner option"
  databaseConnection :: "handle option"
  attachedDatabases :: "(string \<times> AttachedDatabase) list"

subsection \<open>The outside world\<close>

text \<open>
  Every call that leaves the class is an event. The trace lists the calls attempted so
  far, oldest first; the environment decides, from the trace and the call, whether the
  call fails. \<open>isAbsolute\<close> and \<open>filepathToName\<close> are the imports from
  \<^verbatim>\<open>util/PathUtils\<close> and \<open>PlatformTools_load\<close> is \<^verbatim>\<open>PlatformTools.load\<close>; their source
  is not part of the development, so they are parameters.
\<close>

datatype event =
    Mkdir string
  | Open binding string open_options
  | Exec handle string
  | PrepareDatabase callback handle
  | Query string
  | Close handle

record env =
  isAbsolute :: "string \<Rightarrow> bool"
  filepathToName :: "string \<Rightarrow> string"
  PlatformTools_load :: "string \<Rightarrow> error + binding"
  outcome :: "event list \<Rightarrow> event \<Rightarrow> error option"

type_synonym 'a io = "event list \<Rightarrow> (error + 'a) \<times> event list"

definition ret :: "'a \<Rightarrow> 'a io" where
  "ret x w = (Inr x, w)"

definition bind_io :: "'a io \<Rightarrow> ('a \<Rightarrow> 'b io) \<Rightarrow> 'b io" where
  "bind_io m f w = (case m w of (Inl e, w') \<Rightarrow> (Inl e, w') | (Inr x, w') \<Rightarrow> f x w')"

definition perform :: "env \<Rightarrow> event \<Rightarrow> unit io" where
  "perform env ev w =
     (case outcome env w ev of None \<Rightarrow> (Inr (), w @ [ev]) | Some e \<Rightarrow> (Inl e, w @ [ev]))"

subsection \<open>Construction\<close>

text \<open>\<open>loadDependencies\<close>: the explicit \<open>options.driver\<close> when it is supplied, otherwise
  \<open>PlatformTools.load("better-sqlite3")\<close>; whatever the \<open>try\<close> block throws is replaced by
  \<open>DriverPackageNotInstalledError("SQLite", "better-sqlite3")\<close>.\<close>

definition loadDependencies :: "env \<Rightarrow> BetterSqlite3Driver \<Rightarrow> error + BetterSqlite3Driver" where
  "loadDependencies env this =
     (case driver (options this) of
        Some b \<Rightarrow> Inr (this\<lparr>sqlite := Some b\<rparr>)
      | None \<Rightarrow>
          (case PlatformTools_load env ''better-sqlite3'' of
             Inl e \<Rightarrow> Inl (DriverPackageNotInstalledError ''SQLite'' ''better-sqlite3'')
           | Inr b \<Rightarrow> Inr (this\<lparr>sqlite := Some b\<rparr>)))"

text \<open>The constructor: the fields are set from the data source's options and the package
  is loaded. No event is issued: the constructor has no access to the trace.\<close>

definition constructor :: "env \<Rightarrow> BetterSqlite3ConnectionOptions \<Rightarrow> error + BetterSqlite3Driver" where
  "constructor env connection_options =
     loadDependencies env
       \<lparr>options = connection_options, this_database = database connection_options,
        sqlite = None, queryRunner = None, databaseConnection = None,
        attachedDatabases = []\<rparr>"

subsection \<open>Disconnect and the query runner\<close>

text \<open>A method that changes the driver returns its result, the driver and the trace.
  \<open>disconnect\<close> clears \<open>queryRunner\<close> first and then calls \<open>close\<close> on
  \<open>this.databaseConnection\<close>; on \<open>undefined\<close> that call is a \<open>TypeError\<close>.\<close>

definition disconnect ::
  "env \<Rightarrow> BetterSqlite3Driver \<Rightarrow> event list \<Rightarrow> (error + unit) \<times> BetterSqlite3Driver \<times> event list" where
  "disconnect env this w =
     (let this' = this\<lparr>queryRunner := None\<rparr> in
      case databaseConnection this' of
        None \<Rightarrow> (Inl TypeError, this', w)
      | Some h \<Rightarrow> (case perform env (Close h) w of (r, w') \<Rightarrow> (r, this', w')))"

datatype ReplicationMode = master | slave

definition createQueryRunner ::
  "BetterSqlite3Driver \<Rightarrow> ReplicationMode \<Rightarrow> query_runner \<times> BetterSqlite3Driver" where
  "createQueryRunner this mode =
     (case queryRunner this of
        None \<Rightarrow> (BetterSqlite3QueryRunner, this\<lparr>queryRunner := Some BetterSqlite3QueryRunner\<rparr>)
      | Some q \<Rightarrow> (q, this))"

subsection \<open>Table names and the attachment registry\<close>

text \<open>Modelled from the spec: \<open>getAttachedDatabaseHandleByRelativePath\<close> is inherited from
  \<open>AbstractSqliteDriver\<close>, whose source is not part of the development; per section 4.2 it
  yields the handle of the registry entry of a logical reference, if there is one.\<close>

definition getAttachedDatabaseHandleByRelativePath :: "BetterSqlite3Driver \<Rightarrow> string \<Rightarrow> string option" where
  "getAttachedDatabaseHandleByRelativePath this path =
     map_option attachHandle (map_of (attachedDatabases this) path)"

text \<open>A value interpolated into a template literal.\<close>

definition interpolate :: "string option \<Rightarrow> string" where
  "interpolate v = (case v of None \<Rightarrow> ''undefined'' | Some s \<Rightarrow> s)"

text \<open>\<open>getMainDatabasePath\<close>: \<open>path.join\<close> throws a \<open>TypeError\<close> when
  \<open>this.options.baseDirectory\<close> is \<open>undefined\<close>.\<close>

definition getMainDatabasePath :: "env \<Rightarrow> BetterSqlite3Driver \<Rightarrow> error + string" where
  "getMainDatabasePath env this =
     (let optionsDb = database (options this) in
      if isAbsolute env optionsDb then Inr (path_dirname optionsDb)
      else
        (case baseDirectory (options this) of
           None \<Rightarrow> Inl TypeError
         | Some base \<Rightarrow> Inr (path_dirname (path_join [base, optionsDb]))))"

text \<open>\<open>buildTableName\<close>. The assignment \<open>this.attachedDatabases[database] = {...}\<close> is
  \<open>AList.update\<close>; for the reference \<open>__proto__\<close> the pair it writes is the prototype of the
  registry, which later lookups of that reference read and \<open>Object.values\<close> skips.\<close>

definition buildTableName ::
  "env \<Rightarrow> BetterSqlite3Driver \<Rightarrow> string \<Rightarrow> string option \<Rightarrow> string option
     \<Rightarrow> (error + string) \<times> BetterSqlite3Driver" where
  "buildTableName env this tableName schema db =
     (if \<not> truthy db then (Inr tableName, this)
      else
        (let database = interpolate db in
         if truthy (getAttachedDatabaseHandleByRelativePath this database)
         then (Inr (interpolate (getAttachedDatabaseHandleByRelativePath this database)
                      @ ''.'' @ tableName), this)
         else if database = BetterSqlite3ConnectionOptions.database (options this)
         then (Inr tableName, this)
         else
           (let identifierHash = filepathToName env database in
            case (if isAbsolute env database then Inr database
                  else (case getMainDatabasePath env this of
                          Inl e \<Rightarrow> Inl e
                        | Inr mainPath \<Rightarrow> Inr (path_join [mainPath, database]))) of
              Inl e \<Rightarrow> (Inl e, this)
            | Inr absFilepath \<Rightarrow>
                (Inr (identifierHash @ ''.'' @ tableName),
                 this\<lparr>attachedDatabases :=
                   AList.update database
                     \<lparr>attachFilepathAbsolute = absFilepath,
                      attachFilepathRelative = database,
                      attachHandle = identifierHash\<rparr>
                     (attachedDatabases this)\<rparr>))))"

subsection \<open>Opening the connection\<close>

definition createDatabaseDirectory :: "env \<Rightarrow> string \<Rightarrow> unit io" where
  "createDatabaseDirectory env dbPath = perform env (Mkdir dbPath)"

definition default_to :: "'a \<Rightarrow> 'a option \<Rightarrow> 'a" where
  "default_to d v = (case v of None \<Rightarrow> d | Some x \<Rightarrow> x)"

text \<open>The call \<open>this.sqlite(database, {...})\<close>. The handle it returns is a fresh object,
  identified by the length of the trace at the call.\<close>

definition sqlite_call :: "env \<Rightarrow> binding option \<Rightarrow> string \<Rightarrow> open_options \<Rightarrow> handle io" where
  "sqlite_call env b db opts w =
     (case b of
        None \<Rightarrow> (Inl TypeError, w)
      | Some bnd \<Rightarrow>
          (case perform env (Open bnd db opts) w of
             (Inl e, w') \<Rightarrow> (Inl e, w')
           | (Inr u, w') \<Rightarrow> (Inr (Handle (length w)), w')))"

definition createDatabaseConnection :: "env \<Rightarrow> BetterSqlite3Driver \<Rightarrow> handle io" where
  "createDatabaseConnection env this =
     bind_io
       (if database (options this) \<noteq> '':memory:''
        then createDatabaseDirectory env (path_dirname (database (options this)))
        else ret ())
     (\<lambda>u. bind_io
       (sqlite_call env (sqlite this) (database (options this))
          \<lparr>opt_readonly = default_to False (readonly (options this)),
           opt_fileMustExist = default_to False (fileMustExist (options this)),
           opt_timeout = default_to 5000 (timeout (options this)),
           opt_verbose = verbose (options this),
           opt_nativeBinding = nativeBinding (options this)\<rparr>)
     (\<lambda>databaseConnection. bind_io
       (if truthy (key (options this))
        then perform env
               (Exec databaseConnection
                  (''PRAGMA key = '' @ JSON_stringify (interpolate (key (options this)))))
        else ret ())
     (\<lambda>u. bind_io
       (case prepareDatabase (options this) of
          Some f \<Rightarrow> perform env (PrepareDatabase f databaseConnection)
        | None \<Rightarrow> ret ())
     (\<lambda>u. bind_io
       (perform env (Exec databaseConnection ''PRAGMA foreign_keys = ON''))
     (\<lambda>u. bind_io
       (if enableWAL (options this) = Some True
        then perform env (Exec databaseConnection ''PRAGMA journal_mode = WAL'')
        else ret ())
     (\<lambda>u. ret databaseConnection))))))"

subsection \<open>Attaching the registered databases\<close>

definition attach_statement :: "AttachedDatabase \<Rightarrow> string" where
  "attach_statement a =
     ''ATTACH '' @ [CHR 0x22] @ attachFilepathAbsolute a @ [CHR 0x22]
       @ '' AS '' @ [CHR 0x22] @ attachHandle a @ [CHR 0x22]"

fun attach_loop :: "env \<Rightarrow> AttachedDatabase list \<Rightarrow> unit io" where
  "attach_loop env [] = ret ()"
| "attach_loop env (a # as) =
     bind_io (createDatabaseDirectory env (path_dirname (attachFilepathAbsolute a)))
       (\<lambda>u. bind_io (perform env (Query (attach_statement a)))
       (\<lambda>u. attach_loop env as))"

definition attachDatabases :: "env \<Rightarrow> BetterSqlite3Driver \<Rightarrow> unit io" where
  "attachDatabases env this = attach_loop env (Object_values (attachedDatabases this))"

definition afterConnect :: "env \<Rightarrow> BetterSqlite3Driver \<Rightarrow> unit io" where
  "afterConnect env this = attachDatabases env this"

subsection \<open>Connecting\<close>

text \<open>Modelled from the spec: \<open>connect\<close> is inherited from \<open>AbstractSqliteDriver\<close>, whose
  source is not part of the development; per section 4.3 (Connect) and the invariant of
  section 3 it acquires the physical handle by \<open>createDatabaseConnection\<close> and the driver
  owns the handle once that has succeeded.\<close>

definition connect ::
  "env \<Rightarrow> BetterSqlite3Driver \<Rightarrow> event list \<Rightarrow> (error + unit) \<times> BetterSqlite3Driver \<times> event list" where
  "connect env this w =
     (case createDatabaseConnection env this w of
        (Inl e, w') \<Rightarrow> (Inl e, this, w')
      | (Inr h, w') \<Rightarrow> (Inr (), this\<lparr>databaseConnection := Some h\<rparr>, w'))"

subsection \<open>Sequences of calls\<close>

text \<open>The metadata traversal of the data source calls \<open>buildTableName\<close> once per table.
  Of a traversal only the driver it leaves behind matters here: the states a traversal
  reaches from a fresh driver are the states the registry can be in.\<close>

fun metadata_traversal ::
  "env \<Rightarrow> BetterSqlite3Driver \<Rightarrow> (string \<times> string option \<times> string option) list
     \<Rightarrow> BetterSqlite3Driver" where
  "metadata_traversal env this [] = this"
| "metadata_traversal env this ((tableName, schema, db) # calls) =
     metadata_traversal env (snd (buildTableName env this tableName schema db)) calls"

text \<open>A history of calls of the public methods, with the outcome of each (\<open>None\<close>: the call
  returned, \<open>Some e\<close>: it threw \<open>e\<close>).\<close>

datatype call =
    Connect
  | AfterConnect
  | Disconnect
  | CreateQueryRunner ReplicationMode
  | BuildTableName string "string option" "string option"

definition failure :: "error + 'a \<Rightarrow> error option" where
  "failure r = (case r of Inl e \<Rightarrow> Some e | Inr x \<Rightarrow> None)"

fun invoke ::
  "env \<Rightarrow> call \<Rightarrow> BetterSqlite3Driver \<Rightarrow> event list
     \<Rightarrow> error option \<times> BetterSqlite3Driver \<times> event list" where
  "invoke env Connect this w = (case connect env this w of (r, this', w') \<Rightarrow> (failure r, this', w'))"
| "invoke env AfterConnect this w = (case afterConnect env this w of (r, w') \<Rightarrow> (failure r, this, w'))"
| "invoke env Disconnect this w = (case disconnect env this w of (r, this', w') \<Rightarrow> (failure r, this', w'))"
| "invoke env (CreateQueryRunner mode) this w = (None, snd (createQueryRunner this mode), w)"
| "invoke env (BuildTableName tableName schema db) this w =
     (case buildTableName env this tableName schema db of (r, this') \<Rightarrow> (failure r, this', w))"

fun history ::
  "env \<Rightarrow> call list \<Rightarrow> BetterSqlite3Driver \<Rightarrow> event list
     \<Rightarrow> error option list \<times> BetterSqlite3Driver \<times> event list" where
  "history env [] this w = ([], this, w)"
| "history env (c # cs) this w =
     (case invoke env c this w of
        (r, this', w') \<Rightarrow>
          (case history env cs this' w' of (rs, this'', w'') \<Rightarrow> (r # rs, this'', w'')))"

subsection \<open>The order of the connect sub-steps, as the specification lists it\<close>

text \<open>
  The specification fixes the calls of one connect, in order: the directory of the
  primary store (unless it is in memory), the physical open, the key pragma (if a key is
  configured), the customization hook (if configured), the foreign-key pragma, the
  write-ahead-log pragma (if enabled), and then, for each registry entry, its directory
  followed by its attach statement. \<open>follows m w evs Q\<close> says that the action \<open>m\<close>, started
  on the trace \<open>w\<close>, attempts the calls \<open>evs\<close> in this order and no other: all of them when
  it returns (with a result satisfying \<open>Q\<close>), an initial part of them when it throws.
\<close>

definition directory_step :: "BetterSqlite3Driver \<Rightarrow> event list" where
  "directory_step this =
     (if database (options this) = '':memory:'' then []
      else [Mkdir (path_dirname (database (options this)))])"

definition open_step :: "BetterSqlite3Driver \<Rightarrow> event list" where
  "open_step this =
     (case sqlite this of
        None \<Rightarrow> []
      | Some b \<Rightarrow>
          [Open b (database (options this))
             \<lparr>opt_readonly = default_to False (readonly (options this)),
              opt_fileMustExist = default_to False (fileMustExist (options this)),
              opt_timeout = default_to 5000 (timeout (options this)),
              opt_verbose = verbose (options this),
              opt_nativeBinding = nativeBinding (options this)\<rparr>])"

definition key_step :: "BetterSqlite3Driver \<Rightarrow> handle \<Rightarrow> event list" where
  "key_step this h =
     (case key (options this) of
        None \<Rightarrow> []
      | Some k \<Rightarrow> (if k = [] then [] else [Exec h (''PRAGMA key = '' @ JSON_stringify k)]))"

definition hook_step :: "BetterSqlite3Driver \<Rightarrow> handle \<Rightarrow> event list" where
  "hook_step this h =
     (case prepareDatabase (options this) of None \<Rightarrow> [] | Some f \<Rightarrow> [PrepareDatabase f h])"

definition wal_step :: "BetterSqlite3Driver \<Rightarrow> handle \<Rightarrow> event list" where
  "wal_step this h =
     (if enableWAL (options this) = Some True then [Exec h ''PRAGMA journal_mode = WAL''] else [])"

definition pragma_steps :: "BetterSqlite3Driver \<Rightarrow> handle \<Rightarrow> event list" where
  "pragma_steps this h =
     key_step this h @ hook_step this h @ [Exec h ''PRAGMA foreign_keys = ON''] @ wal_step this h"

definition attach_steps :: "BetterSqlite3Driver \<Rightarrow> event list" where
  "attach_steps this =
     concat (map (\<lambda>a. [Mkdir (path_dirname (attachFilepathAbsolute a)), Query (attach_statement a)])
                 (Object_values (attachedDatabases this)))"

definition follows :: "'a io \<Rightarrow> event list \<Rightarrow> event list \<Rightarrow> ('a \<Rightarrow> bool) \<Rightarrow> bool" where
  "follows m w evs Q =
     (case m w of
        (Inl e, w') \<Rightarrow> (\<exists>t. w' = w @ t \<and> prefix t evs)
      | (Inr x, w') \<Rightarrow> w' = w @ evs \<and> Q x)"


subsection \<open>A test double\<close>

text \<open>Modelled from the spec: \<open>isAbsolute\<close> of \<^verbatim>\<open>util/PathUtils\<close>, whose source is not part
  of the development; per section 4.1 it follows file-system semantics with forward
  slash, backslash and drive-letter awareness.\<close>

definition is_letter :: "char \<Rightarrow> bool" where
  "is_letter c = (((65::nat) \<le> of_char c \<and> (of_char c :: nat) \<le> 90)
                  \<or> ((97::nat) \<le> of_char c \<and> (of_char c :: nat) \<le> 122))"

fun PathUtils_isAbsolute :: "string \<Rightarrow> bool" where
  "PathUtils_isAbsolute [] = False"
| "PathUtils_isAbsolute [c] = (c = CHR ''/'' \<or> c = CHR 0x5C)"
| "PathUtils_isAbsolute (c # d # cs) =
     (c = CHR ''/'' \<or> c = CHR 0x5C \<or> (is_letter c \<and> d = CHR '':''))"

text \<open>A stand-in for \<open>filepathToName\<close> in the worked examples (the real one is a truncated
  content hash): the hexadecimal spelling of the string, which is safe as an identifier
  and different for different strings.\<close>

definition hex_name :: "string \<Rightarrow> string" where
  "hex_name s = concat (map (\<lambda>c. [hex_digit (of_char c div 16), hex_digit (of_char c)]) s)"

text \<open>The environment of the worked examples: the package is installed, and exactly the
  calls listed in \<open>failing\<close> fail.\<close>

definition test_env :: "event list \<Rightarrow> env" where
  "test_env failing =
     \<lparr>isAbsolute = PathUtils_isAbsolute,
      filepathToName = hex_name,
      PlatformTools_load =
        (\<lambda>name. if name = ''better-sqlite3'' then Inr (Binding ''better-sqlite3'')
                 else Inl (ExternalError ''MODULE_NOT_FOUND'')),
      outcome = (\<lambda>w ev. if ev \<in> set failing then Some (ExternalError ''failed'') else None)\<rparr>"

definition test_options :: "string \<Rightarrow> BetterSqlite3ConnectionOptions" where
  "test_options db =
     \<lparr>database = db, driver = None, key = None, prepareDatabase = None, readonly = None,
      fileMustExist = None, timeout = None, verbose = None, nativeBinding = None,
      enableWAL = None, baseDirectory = None\<rparr>"

text \<open>Two drivers of the worked examples, each the state a fresh driver is in after the
  metadata traversal has seen one table of an attached database: one with a file as its
  primary store (a key, a hook and the write-ahead log configured), one in memory.\<close>

definition example_options :: BetterSqlite3ConnectionOptions where
  "example_options =
     (test_options ''/data/main.db'')
       \<lparr>key := Some ''secret'', prepareDatabase := Some (Callback 0), enableWAL := Some True\<rparr>"

definition example_driver :: BetterSqlite3Driver where
  "example_driver =
     \<lparr>options = example_options, this_database = ''/data/main.db'',
      sqlite = Some (Binding ''better-sqlite3''), queryRunner = None, databaseConnection = None,
      attachedDatabases =
        [(''ext.db'',
          \<lparr>attachFilepathAbsolute = ''/data/ext.db'', attachFilepathRelative = ''ext.db'',
           attachHandle = ''6578742e6462''\<rparr>)]\<rparr>"

definition memory_driver :: BetterSqlite3Driver where
  "memory_driver =
     \<lparr>options = (test_options '':memory:'')\<lparr>baseDirectory := Some ''/app''\<rparr>,
      this_database = '':memory:'',
      sqlite = Some (Binding ''better-sqlite3''), queryRunner = None, databaseConnection = None,
      attachedDatabases =
        [(''ext/a.db'',
          \<lparr>attachFilepathAbsolute = ''/app/ext/a.db'', attachFilepathRelative = ''ext/a.db'',
           attachHandle = ''6578742f612e6462''\<rparr>)]\<rparr>"

text \<open>Fresh drivers of the worked examples, as the constructor leaves them: one with an
  absolute primary path, one with a relative primary path and no base directory.\<close>

definition fresh_driver :: BetterSqlite3Driver where
  "fresh_driver =
     \<lparr>options = test_options ''/data/main.db'', this_database = ''/data/main.db'',
      sqlite = Some (Binding ''better-sqlite3''), queryRunner = None, databaseConnection = None,
      attachedDatabases = []\<rparr>"

definition relative_driver :: BetterSqlite3Driver where
  "relative_driver =
     \<lparr>options = test_options ''main.db'', this_database = ''main.db'',
      sqlite = Some (Binding ''better-sqlite3''), queryRunner = None, databaseConnection = None,
      attachedDatabases = []\<rparr>"





text \<open>An environment in which the package is not installed.\<close>

definition missing_package_env :: env where
  "missing_package_env =
     (test_env [])\<lparr>PlatformTools_load := (\<lambda>name. Inl (ExternalError ''MODULE_NOT_FOUND''))\<rparr>"

subsection \<open>Notions used in the statements\<close>

text \<open>The registry entry that \<open>buildTableName\<close> stores for a reference, given the absolute
  path it computed.\<close>

definition new_entry :: "env \<Rightarrow> string \<Rightarrow> string \<Rightarrow> AttachedDatabase" where
  "new_entry env reference absFilepath =
     \<lparr>attachFilepathAbsolute = absFilepath, attachFilepathRelative = reference,
      attachHandle = filepathToName env reference\<rparr>"


text \<open>The invariant of the registry that the metadata traversal maintains: no key is empty
  or the primary reference, and a relative key is there only if the directory of the
  primary store could be computed.\<close>

definition proper_registry :: "env \<Rightarrow> BetterSqlite3Driver \<Rightarrow> bool" where
  "proper_registry env this =
     (\<forall>k \<in> fst ` set (attachedDatabases this).
        k \<noteq> [] \<and> k \<noteq> database (options this)
        \<and> (isAbsolute env k \<or> isAbsolute env (database (options this))
            \<or> baseDirectory (options this) \<noteq> None))"

text \<open>The absolute path that \<open>buildTableName\<close> computes for a reference (lines 105 to 107
  of the source).\<close>

definition absFilepath :: "env \<Rightarrow> BetterSqlite3Driver \<Rightarrow> string \<Rightarrow> error + string" where
  "absFilepath env this reference =
     (if isAbsolute env reference then Inr reference
      else (case getMainDatabasePath env this of
              Inl e \<Rightarrow> Inl e
            | Inr mainPath \<Rightarrow> Inr (path_join [mainPath, reference])))"

text \<open>The invariant of the registry in the life of one driver: the keys are distinct,
  none is empty or the primary reference, and every entry is the one \<open>buildTableName\<close>
  stores for its key.\<close>

definition consistent_registry :: "env \<Rightarrow> BetterSqlite3Driver \<Rightarrow> bool" where
  "consistent_registry env this =
     (distinct (map fst (attachedDatabases this))
      \<and> (\<forall>kv \<in> set (attachedDatabases this).
            fst kv \<noteq> [] \<and> fst kv \<noteq> database (options this)
            \<and> (\<exists>a. absFilepath env this (fst kv) = Inr a \<and> snd kv = new_entry env (fst kv) a)))"

section \<open>Properties\<close>

subsection \<open>Traces of the connect steps\<close>

lemma follows_ret: "Q x \<Longrightarrow> follows (ret x) w [] Q"
  by (simp add: follows_def ret_def)

lemma follows_perform: "Q () \<Longrightarrow> follows (perform env ev) w [ev] Q"
  by (simp add: follows_def perform_def split: option.splits)

lemma follows_bind:
  assumes "follows m w evs1 P"
    and "\<And>x. P x \<Longrightarrow> follows (f x) (w @ evs1) evs2 Q"
  shows "follows (bind_io m f) w (evs1 @ evs2) Q"
proof (cases "m w")
  case (Pair r w')
  show ?thesis
  proof (cases r)
    case (Inl e)
    with Pair assms(1) show ?thesis
      by (auto simp: follows_def bind_io_def)
  next
    case (Inr x)
    with Pair assms(1) have w': "w' = w @ evs1" and "P x"
      by (auto simp: follows_def)
    from assms(2)[OF \<open>P x\<close>] show ?thesis
      using Pair Inr w'
      by (auto simp: follows_def bind_io_def split: prod.splits sum.splits)
  qed
qed

lemma follows_weaken: "follows m w evs P \<Longrightarrow> (\<And>x. P x \<Longrightarrow> Q x) \<Longrightarrow> follows m w evs Q"
  by (auto simp: follows_def split: prod.splits sum.splits)

lemma follows_directory:
  "follows (if database (options this) \<noteq> '':memory:''
            then createDatabaseDirectory env (path_dirname (database (options this)))
            else ret ()) w (directory_step this) (\<lambda>u. True)"
  by (simp add: directory_step_def createDatabaseDirectory_def follows_ret follows_perform)

lemma follows_sqlite_call:
  "follows (sqlite_call env (sqlite this) (database (options this))
          \<lparr>opt_readonly = default_to False (readonly (options this)),
           opt_fileMustExist = default_to False (fileMustExist (options this)),
           opt_timeout = default_to 5000 (timeout (options this)),
           opt_verbose = verbose (options this),
           opt_nativeBinding = nativeBinding (options this)\<rparr>) w (open_step this)
      (\<lambda>h. h = Handle (length w) \<and> sqlite this \<noteq> None)"
  by (auto simp: follows_def sqlite_call_def open_step_def perform_def split: option.splits)

lemma follows_key:
  "follows (if truthy (key (options this))
        then perform env
               (Exec h (''PRAGMA key = '' @ JSON_stringify (interpolate (key (options this)))))
        else ret ()) w (key_step this h) (\<lambda>u. True)"
  by (auto simp: key_step_def truthy_def interpolate_def follows_ret follows_perform split: option.splits)

lemma follows_hook:
  "follows (case prepareDatabase (options this) of
          Some f \<Rightarrow> perform env (PrepareDatabase f h)
        | None \<Rightarrow> ret ()) w (hook_step this h) (\<lambda>u. True)"
  by (auto simp: hook_step_def follows_ret follows_perform split: option.splits)

lemma follows_wal:
  "follows (if enableWAL (options this) = Some True
        then perform env (Exec h ''PRAGMA journal_mode = WAL'')
        else ret ()) w (wal_step this h) (\<lambda>u. True)"
  by (auto simp: wal_step_def follows_ret follows_perform)

lemma follows_pragmas:
  "follows (bind_io
       (if truthy (key (options this))
        then perform env
               (Exec h (''PRAGMA key = '' @ JSON_stringify (interpolate (key (options this)))))
        else ret ())
     (\<lambda>u. bind_io
       (case prepareDatabase (options this) of
          Some f \<Rightarrow> perform env (PrepareDatabase f h)
        | None \<Rightarrow> ret ())
     (\<lambda>u. bind_io
       (perform env (Exec h ''PRAGMA foreign_keys = ON''))
     (\<lambda>u. bind_io
       (if enableWAL (options this) = Some True
        then perform env (Exec h ''PRAGMA journal_mode = WAL'')
        else ret ())
     (\<lambda>u. ret h))))) w (pragma_steps this h) (\<lambda>x. x = h)"
  unfolding pragma_steps_def
  apply (rule follows_bind[OF follows_key])
  apply (rule follows_bind[OF follows_hook])
  apply (rule follows_bind[OF follows_perform[of "\<lambda>u. True"]])
   apply simp
  apply (rule follows_bind[OF follows_wal, where ?evs2.0="[]", simplified])
  apply (rule follows_ret)
  apply simp
  done

lemma follows_createDatabaseConnection:
  "follows (createDatabaseConnection env this) w
     (directory_step this @ open_step this
        @ pragma_steps this (Handle (length w + length (directory_step this))))
     (\<lambda>h. h = Handle (length w + length (directory_step this)) \<and> sqlite this \<noteq> None)"
  unfolding createDatabaseConnection_def
  apply (rule follows_bind[OF follows_directory])
  apply (rule follows_bind[OF follows_sqlite_call])
  apply (erule conjE)
  apply (simp only: length_append)
  apply hypsubst
  apply (rule follows_weaken[OF follows_pragmas])
  apply simp
  done

lemma follows_attach_loop:
  "follows (attach_loop env as) w
     (concat (map (\<lambda>a. [Mkdir (path_dirname (attachFilepathAbsolute a)), Query (attach_statement a)]) as))
     (\<lambda>u. True)"
proof (induction as arbitrary: w)
  case Nil
  show ?case by (simp add: follows_ret)
next
  case (Cons a as)
  have "follows (attach_loop env (a # as)) w
     ([Mkdir (path_dirname (attachFilepathAbsolute a))] @ [Query (attach_statement a)] @
      concat (map (\<lambda>a. [Mkdir (path_dirname (attachFilepathAbsolute a)), Query (attach_statement a)]) as))
     (\<lambda>u. True)"
    unfolding attach_loop.simps createDatabaseDirectory_def
    apply (rule follows_bind[OF follows_perform[of "\<lambda>u. True"]])
     apply simp
    apply (rule follows_bind[OF follows_perform[of "\<lambda>u. True"]])
     apply simp
    apply (rule Cons.IH)
    done
  then show ?case by simp
qed

lemma follows_afterConnect:
  "follows (afterConnect env this) w (attach_steps this) (\<lambda>u. True)"
  by (simp add: afterConnect_def attachDatabases_def attach_steps_def follows_attach_loop)


lemma set_Object_values: "set (Object_values obj) = snd ` set (own_properties obj)"
  by (auto simp: Object_values_def)

lemma no_Mkdir_open_step: "Mkdir p \<notin> set (open_step this)"
  by (simp add: open_step_def split: option.splits)

lemma no_Mkdir_pragma_steps: "Mkdir p \<notin> set (pragma_steps this h)"
  by (simp add: pragma_steps_def key_step_def hook_step_def wal_step_def split: option.splits)

lemma prefix_set_subset: "prefix t evs \<Longrightarrow> set t \<subseteq> set evs"
  by (auto simp: prefix_def)

subsection \<open>Evaluating the worked examples\<close>

lemmas eval_simps =
  createDatabaseConnection_def bind_io_def ret_def perform_def sqlite_call_def
  createDatabaseDirectory_def test_env_def test_options_def default_to_def truthy_def
  interpolate_def JSON_stringify_def json_escape_def path_dirname_def path_join_def
  path_normalize_def afterConnect_def attachDatabases_def Object_values_def own_properties_def
  is_array_index_def is_digit_def decimal_value_def attach_statement_def
  constructor_def loadDependencies_def buildTableName_def getMainDatabasePath_def
  getAttachedDatabaseHandleByRelativePath_def hex_name_def hex_digit_def
  disconnect_def connect_def createQueryRunner_def failure_def Let_def
  directory_step_def open_step_def key_step_def hook_step_def wal_step_def attach_steps_def

lemma example_driver_reached:
  "(case constructor (test_env []) example_options of
      Inl e \<Rightarrow> False
    | Inr d0 \<Rightarrow>
        metadata_traversal (test_env []) d0 [(''post'', None, Some ''ext.db'')] = example_driver)"
  by (simp add: eval_simps example_driver_def example_options_def)

lemma memory_driver_reached:
  "(case constructor (test_env []) ((test_options '':memory:'')\<lparr>baseDirectory := Some ''/app''\<rparr>) of
      Inl e \<Rightarrow> False
    | Inr d0 \<Rightarrow>
        metadata_traversal (test_env []) d0 [(''post'', None, Some ''ext/a.db'')] = memory_driver)"
  by (simp add: eval_simps memory_driver_def)

subsection \<open>The order of the connect sub-steps\<close>

text \<open>
  Claim C4. On every connect the sub-steps run in one fixed order: the key pragma (if a
  key is configured), the \<open>prepareDatabase\<close> hook (if configured), the foreign-key pragma
  (always), the write-ahead-log pragma (if \<open>enableWAL\<close> is set), and then the attach
  statements. For every driver state and every trace so far (so also on a reconnect), and
  whatever fails: the calls of \<open>createDatabaseConnection\<close> are an initial part of this
  sequence when it throws and the whole of it when it returns, and the calls of
  \<open>afterConnect\<close>, run on the trace that a successful connect leaves, are the attach steps
  in registry order, again all of them or an initial part.
\<close>

theorem connect_substeps_in_fixed_order:
  "(let h = Handle (length w + length (directory_step this)) in
    case createDatabaseConnection env this w of
      (Inl e, w1) \<Rightarrow>
        (\<exists>t. w1 = w @ t \<and>
           prefix t (directory_step this @ open_step this @ key_step this h @ hook_step this h
                     @ [Exec h ''PRAGMA foreign_keys = ON''] @ wal_step this h))
    | (Inr c, w1) \<Rightarrow>
        c = h \<and>
        w1 = w @ directory_step this @ open_step this @ key_step this h @ hook_step this h
               @ [Exec h ''PRAGMA foreign_keys = ON''] @ wal_step this h \<and>
        (case afterConnect env this w1 of
           (Inl e, w2) \<Rightarrow> (\<exists>t. w2 = w1 @ t \<and> prefix t (attach_steps this))
         | (Inr u, w2) \<Rightarrow> w2 = w1 @ attach_steps this))"
proof -
  let ?h = "Handle (length w + length (directory_step this))"
  have c: "follows (createDatabaseConnection env this) w
     (directory_step this @ open_step this @ pragma_steps this ?h)
     (\<lambda>h. h = ?h \<and> sqlite this \<noteq> None)"
    by (rule follows_createDatabaseConnection)
  have a: "\<And>w1. follows (afterConnect env this) w1 (attach_steps this) (\<lambda>u. True)"
    by (rule follows_afterConnect)
  obtain r w1 where r: "createDatabaseConnection env this w = (r, w1)"
    by (cases "createDatabaseConnection env this w")
  show ?thesis
  proof (cases r)
    case (Inl e)
    with c r show ?thesis
      by (simp add: follows_def pragma_steps_def Let_def)
  next
    case (Inr c')
    obtain r2 w2 where r2: "afterConnect env this w1 = (r2, w2)"
      by (cases "afterConnect env this w1")
    from a[of w1] r2 have "case r2 of Inl e \<Rightarrow> (\<exists>t. w2 = w1 @ t \<and> prefix t (attach_steps this))
         | Inr u \<Rightarrow> w2 = w1 @ attach_steps this"
      by (simp add: follows_def split: sum.splits)
    with c r Inr r2 show ?thesis
      by (simp add: follows_def pragma_steps_def Let_def split: sum.splits)
  qed
qed

text \<open>The example driver, with every option set and nothing failing: the whole sequence,
  as a test double recording the calls observes it.\<close>

theorem connect_substeps_in_fixed_order_witness:
  "createDatabaseConnection (test_env []) example_driver [] =
     (Inr (Handle 1),
      [Mkdir ''/data'',
       Open (Binding ''better-sqlite3'') ''/data/main.db''
         \<lparr>opt_readonly = False, opt_fileMustExist = False, opt_timeout = 5000,
          opt_verbose = None, opt_nativeBinding = None\<rparr>,
       Exec (Handle 1) (''PRAGMA key = '' @ [CHR 0x22] @ ''secret'' @ [CHR 0x22]),
       PrepareDatabase (Callback 0) (Handle 1),
       Exec (Handle 1) ''PRAGMA foreign_keys = ON'',
       Exec (Handle 1) ''PRAGMA journal_mode = WAL''])
   \<and> afterConnect (test_env []) example_driver
        (snd (createDatabaseConnection (test_env []) example_driver [])) =
     (Inr (),
      snd (createDatabaseConnection (test_env []) example_driver [])
      @ [Mkdir ''/data'',
         Query (''ATTACH '' @ [CHR 0x22] @ ''/data/ext.db'' @ [CHR 0x22]
                @ '' AS '' @ [CHR 0x22] @ ''6578742e6462'' @ [CHR 0x22])])"
  using connect_substeps_in_fixed_order [where w = "[]" and this = example_driver and env = "test_env []"]
  by (simp add: eval_simps example_driver_def example_options_def)

subsection \<open>An in-memory primary store\<close>

text \<open>
  Claim C7. When the primary database is the \<open>:memory:\<close> sentinel, connect creates no
  directory for the primary store: no call of \<open>createDatabaseConnection\<close> is a directory
  creation. The post-connect attachment still creates the containing directory of every
  registry entry, right before that entry's attach statement: its calls are, entry by
  entry, the directory of the entry and then its attach statement (an initial part of
  this sequence when a call fails), and every entry of the registry is enumerated: the
  entries are the own properties of the registry object, that is every pair but the one
  that stands for its prototype.
\<close>

theorem memory_primary_creates_only_attachment_directories:
  assumes "database (options this) = '':memory:''"
  shows "(case createDatabaseConnection env this w of
            (r, w1) \<Rightarrow> (\<exists>t. w1 = w @ t \<and> (\<forall>p. Mkdir p \<notin> set t)))
       \<and> (case afterConnect env this w of
            (Inl e, w2) \<Rightarrow>
              (\<exists>t. w2 = w @ t \<and>
                 prefix t (concat (map (\<lambda>a. [Mkdir (path_dirname (attachFilepathAbsolute a)),
                                             Query (attach_statement a)])
                                      (Object_values (attachedDatabases this)))))
          | (Inr u, w2) \<Rightarrow>
              w2 = w @ concat (map (\<lambda>a. [Mkdir (path_dirname (attachFilepathAbsolute a)),
                                          Query (attach_statement a)])
                                   (Object_values (attachedDatabases this))))
       \<and> set (Object_values (attachedDatabases this))
           = snd ` set (own_properties (attachedDatabases this))"
proof (intro conjI)
  let ?h = "Handle (length w + length (directory_step this))"
  have d: "directory_step this = []"
    using assms by (simp add: directory_step_def)
  have c: "follows (createDatabaseConnection env this) w
     (directory_step this @ open_step this @ pragma_steps this ?h)
     (\<lambda>h. h = ?h \<and> sqlite this \<noteq> None)"
    by (rule follows_createDatabaseConnection)
  obtain r w1 where r: "createDatabaseConnection env this w = (r, w1)"
    by (cases "createDatabaseConnection env this w")
  from c r d obtain t where t: "w1 = w @ t" "prefix t (open_step this @ pragma_steps this ?h)"
    by (cases r) (auto simp: follows_def)
  from prefix_set_subset[OF t(2)] have "\<forall>p. Mkdir p \<notin> set t"
    using no_Mkdir_open_step[of _ this] no_Mkdir_pragma_steps[of _ this ?h] by auto
  with t(1) r show "case createDatabaseConnection env this w of
            (r, w1) \<Rightarrow> (\<exists>t. w1 = w @ t \<and> (\<forall>p. Mkdir p \<notin> set t))"
    by simp
next
  have "follows (afterConnect env this) w (attach_steps this) (\<lambda>u. True)"
    by (rule follows_afterConnect)
  then show "case afterConnect env this w of
            (Inl e, w2) \<Rightarrow>
              (\<exists>t. w2 = w @ t \<and>
                 prefix t (concat (map (\<lambda>a. [Mkdir (path_dirname (attachFilepathAbsolute a)),
                                             Query (attach_statement a)])
                                      (Object_values (attachedDatabases this)))))
          | (Inr u, w2) \<Rightarrow>
              w2 = w @ concat (map (\<lambda>a. [Mkdir (path_dirname (attachFilepathAbsolute a)),
                                          Query (attach_statement a)])
                                   (Object_values (attachedDatabases this)))"
    by (simp add: follows_def attach_steps_def split: prod.splits sum.splits)
next
  show "set (Object_values (attachedDatabases this))
           = snd ` set (own_properties (attachedDatabases this))"
    by (rule set_Object_values)
qed

text \<open>The in-memory example driver: the connect opens the store and sets the foreign-key
  pragma without creating a directory; the attachment creates \<open>/app/ext\<close> and attaches.\<close>

theorem memory_primary_creates_only_attachment_directories_witness:
  "database (options memory_driver) = '':memory:''
   \<and> createDatabaseConnection (test_env []) memory_driver [] =
       (Inr (Handle 0),
        [Open (Binding ''better-sqlite3'') '':memory:''
           \<lparr>opt_readonly = False, opt_fileMustExist = False, opt_timeout = 5000,
            opt_verbose = None, opt_nativeBinding = None\<rparr>,
         Exec (Handle 0) ''PRAGMA foreign_keys = ON''])
   \<and> afterConnect (test_env []) memory_driver [] =
       (Inr (),
        [Mkdir ''/app/ext'',
         Query (''ATTACH '' @ [CHR 0x22] @ ''/app/ext/a.db'' @ [CHR 0x22]
                @ '' AS '' @ [CHR 0x22] @ ''6578742f612e6462'' @ [CHR 0x22])])"
  using memory_primary_creates_only_attachment_directories
          [where this = memory_driver and env = "test_env []" and w = "[]"]
  by (simp add: eval_simps memory_driver_def)

lemma database_test_options: "database (test_options db) = db"
  by (simp add: test_options_def)

lemma fresh_driver_constructed:
  "constructor (test_env []) (test_options ''/data/main.db'') = Inr fresh_driver"
  by (simp add: eval_simps fresh_driver_def)

lemma relative_driver_constructed:
  "constructor (test_env []) (test_options ''main.db'') = Inr relative_driver"
  by (simp add: eval_simps relative_driver_def)

lemma fresh_driver_ext:
  "buildTableName (test_env []) fresh_driver ''post'' None (Some ''ext.db'')
     = (Inr ''6578742e6462.post'',
        fresh_driver\<lparr>attachedDatabases :=
          [(''ext.db'',
            \<lparr>attachFilepathAbsolute = ''/data/ext.db'', attachFilepathRelative = ''ext.db'',
             attachHandle = ''6578742e6462''\<rparr>)]\<rparr>)"
  by (simp add: eval_simps fresh_driver_def)

subsection \<open>Construction and dependency acquisition\<close>

text \<open>
  Claim C8. The constructor takes the engine binding from the explicit \<open>driver\<close> override
  when one is supplied and otherwise loads the package \<open>better-sqlite3\<close>. When loading
  fails it throws \<open>DriverPackageNotInstalledError\<close> naming the engine family \<open>SQLite\<close> and
  the package \<open>better-sqlite3\<close>, and this is the only way construction fails. The failure
  surfaces at construction: a driver that exists has its binding and has not connected
  yet (no handle, no query runner, an empty registry), and the constructor issues no call
  to the outside world.
\<close>

theorem dependency_acquisition:
  "(case constructor env connection_options of
      Inl e \<Rightarrow>
        e = DriverPackageNotInstalledError ''SQLite'' ''better-sqlite3''
        \<and> driver connection_options = None
        \<and> (\<exists>x. PlatformTools_load env ''better-sqlite3'' = Inl x)
    | Inr this \<Rightarrow>
        options this = connection_options
        \<and> databaseConnection this = None
        \<and> queryRunner this = None
        \<and> attachedDatabases this = []
        \<and> (\<exists>b. sqlite this = Some b \<and>
              (case driver connection_options of
                 Some b' \<Rightarrow> b = b'
               | None \<Rightarrow> PlatformTools_load env ''better-sqlite3'' = Inr b)))"
  by (simp add: constructor_def loadDependencies_def split: option.splits sum.splits)

text \<open>An explicit override is used as it is; without one the installed package is loaded;
  with the package missing the constructor throws.\<close>

theorem dependency_acquisition_witness:
  "constructor (test_env []) ((test_options ''/data/main.db'')\<lparr>driver := Some (Binding ''custom'')\<rparr>)
     = Inr (fresh_driver\<lparr>options := (test_options ''/data/main.db'')\<lparr>driver := Some (Binding ''custom'')\<rparr>,
                         sqlite := Some (Binding ''custom'')\<rparr>)
   \<and> constructor (test_env []) (test_options ''/data/main.db'') = Inr fresh_driver
   \<and> constructor missing_package_env (test_options ''/data/main.db'')
     = Inl (DriverPackageNotInstalledError ''SQLite'' ''better-sqlite3'')"
  using dependency_acquisition [where env = missing_package_env
          and connection_options = "test_options ''/data/main.db''"]
  by (simp add: eval_simps fresh_driver_def missing_package_env_def)

subsection \<open>Disconnect\<close>

text \<open>
  Claim C1, amended. \<open>disconnect\<close> drops the cached query runner and leaves every other
  field, the stored handle included, as it was. On a driver that holds no handle it throws
  a \<open>TypeError\<close> without calling the binding; otherwise it calls \<open>close\<close> on the stored
  handle once and fails exactly when that call fails. A second disconnect in succession
  does the same again on the same handle: the class itself never raises
  \<open>InvalidConnection\<close>.
\<close>

theorem disconnect_closes_stored_handle:
  "(case disconnect env this w of
      (r, this', w') \<Rightarrow>
        this' = this\<lparr>queryRunner := None\<rparr>
        \<and> (case databaseConnection this of
              None \<Rightarrow> r = Inl TypeError \<and> w' = w
            | Some h \<Rightarrow> w' = w @ [Close h] \<and> failure r = outcome env w (Close h))
        \<and> (case disconnect env this' w' of
              (r2, this2, w2) \<Rightarrow>
                this2 = this'
                \<and> (case databaseConnection this of
                      None \<Rightarrow> r2 = Inl TypeError \<and> w2 = w
                    | Some h \<Rightarrow>
                        w2 = w @ [Close h, Close h]
                        \<and> failure r2 = outcome env (w @ [Close h]) (Close h))))"
  by (simp add: disconnect_def perform_def failure_def Let_def split: option.splits)

text \<open>A driver that holds a handle and a query runner, with a binding whose \<open>close\<close> does not
  fail: both disconnects return, each after one \<open>close\<close> on the same handle.\<close>

theorem disconnect_closes_stored_handle_witness:
  "disconnect (test_env [])
     (fresh_driver\<lparr>queryRunner := Some BetterSqlite3QueryRunner,
                   databaseConnection := Some (Handle 1)\<rparr>) []
     = (Inr (), fresh_driver\<lparr>databaseConnection := Some (Handle 1)\<rparr>, [Close (Handle 1)])
   \<and> disconnect (test_env []) (fresh_driver\<lparr>databaseConnection := Some (Handle 1)\<rparr>)
       [Close (Handle 1)]
     = (Inr (), fresh_driver\<lparr>databaseConnection := Some (Handle 1)\<rparr>,
        [Close (Handle 1), Close (Handle 1)])"
  using disconnect_closes_stored_handle [where env = "test_env []" and w = "[]"
          and this = "fresh_driver\<lparr>queryRunner := Some BetterSqlite3QueryRunner,
                                   databaseConnection := Some (Handle 1)\<rparr>"]
  by (simp add: eval_simps fresh_driver_def)

text \<open>Claim C1 as stated fails on a driver that was never connected: the constructor
  leaves no handle, and disconnect then throws a \<open>TypeError\<close>, not \<open>InvalidConnection\<close>.\<close>

theorem disconnect_never_connected_counterexample:
  "constructor (test_env []) (test_options ''/data/main.db'') = Inr fresh_driver
   \<and> databaseConnection fresh_driver = None
   \<and> fst (disconnect (test_env []) fresh_driver []) = Inl TypeError
   \<and> fst (disconnect (test_env []) fresh_driver []) \<noteq> Inl InvalidConnection"
  by (simp add: eval_simps fresh_driver_def)

subsection \<open>Resolution of table names\<close>

lemma buildTableName_unqualified:
  "\<not> truthy db \<Longrightarrow> buildTableName env this t s db = (Inr t, this)"
  by (simp add: buildTableName_def)

lemma buildTableName_registered:
  "truthy (getAttachedDatabaseHandleByRelativePath this r) \<Longrightarrow> r \<noteq> [] \<Longrightarrow>
   buildTableName env this t s (Some r) =
     (Inr (interpolate (getAttachedDatabaseHandleByRelativePath this r) @ ''.'' @ t), this)"
  by (simp add: buildTableName_def truthy_def interpolate_def)

lemma buildTableName_primary:
  "\<not> truthy (getAttachedDatabaseHandleByRelativePath this r) \<Longrightarrow> r = database (options this) \<Longrightarrow>
   buildTableName env this t s (Some r) = (Inr t, this)"
  by (simp add: buildTableName_def truthy_def interpolate_def)

lemma buildTableName_absolute:
  "\<not> truthy (getAttachedDatabaseHandleByRelativePath this r) \<Longrightarrow> r \<noteq> database (options this) \<Longrightarrow>
   r \<noteq> [] \<Longrightarrow> isAbsolute env r \<Longrightarrow>
   buildTableName env this t s (Some r) =
     (Inr (filepathToName env r @ ''.'' @ t),
      this\<lparr>attachedDatabases := AList.update r (new_entry env r r) (attachedDatabases this)\<rparr>)"
  by (simp add: buildTableName_def truthy_def interpolate_def new_entry_def Let_def)

lemma buildTableName_relative:
  "\<not> truthy (getAttachedDatabaseHandleByRelativePath this r) \<Longrightarrow> r \<noteq> database (options this) \<Longrightarrow>
   r \<noteq> [] \<Longrightarrow> \<not> isAbsolute env r \<Longrightarrow>
   buildTableName env this t s (Some r) =
     (case getMainDatabasePath env this of
        Inl e \<Rightarrow> (Inl e, this)
      | Inr mainPath \<Rightarrow>
          (Inr (filepathToName env r @ ''.'' @ t),
           this\<lparr>attachedDatabases :=
             AList.update r (new_entry env r (path_join [mainPath, r])) (attachedDatabases this)\<rparr>))"
  by (simp add: buildTableName_def truthy_def interpolate_def new_entry_def Let_def split: sum.splits)

lemma getAttached_update:
  "getAttachedDatabaseHandleByRelativePath
     (this\<lparr>attachedDatabases := AList.update r a (attachedDatabases this)\<rparr>) r = Some (attachHandle a)"
  by (simp add: getAttachedDatabaseHandleByRelativePath_def update_conv')

lemma getMainDatabasePath_registry:
  "getMainDatabasePath env (this\<lparr>attachedDatabases := reg\<rparr>) = getMainDatabasePath env this"
  by (simp add: getMainDatabasePath_def Let_def)

lemma buildTableName_options:
  "options (snd (buildTableName env this t s db)) = options this"
  by (simp add: buildTableName_def Let_def split: sum.splits)

subsection \<open>States reached by the metadata traversal\<close>

lemma proper_registry_update:
  assumes "proper_registry env this" and "r \<noteq> []" and "r \<noteq> database (options this)"
    and "isAbsolute env r \<or> isAbsolute env (database (options this))
         \<or> baseDirectory (options this) \<noteq> None"
  shows "proper_registry env (this\<lparr>attachedDatabases := AList.update r a (attachedDatabases this)\<rparr>)"
  using assms by (simp add: proper_registry_def dom_update)

lemma getMainDatabasePath_Inr:
  "getMainDatabasePath env this = Inr mainPath \<Longrightarrow>
   isAbsolute env (database (options this)) \<or> baseDirectory (options this) \<noteq> None"
  by (auto simp: getMainDatabasePath_def Let_def split: if_splits option.splits)

lemma proper_registry_buildTableName:
  assumes "proper_registry env this"
  shows "proper_registry env (snd (buildTableName env this t s db))"
proof (cases "truthy db")
  case False
  then show ?thesis using assms by (simp add: buildTableName_unqualified)
next
  case True
  then obtain r where db: "db = Some r" and r: "r \<noteq> []"
    by (auto simp: truthy_def split: option.splits)
  show ?thesis
  proof (cases "truthy (getAttachedDatabaseHandleByRelativePath this r)")
    case True
    then show ?thesis using assms r by (simp add: db buildTableName_registered)
  next
    case unreg: False
    show ?thesis
    proof (cases "r = database (options this)")
      case True
      then show ?thesis using assms unreg by (simp add: db buildTableName_primary)
    next
      case notprim: False
      show ?thesis
      proof (cases "isAbsolute env r")
        case True
        then show ?thesis
          using proper_registry_update[OF assms r notprim]
          by (simp add: db buildTableName_absolute[OF unreg notprim r True])
      next
        case False
        show ?thesis
        proof (cases "getMainDatabasePath env this")
          case (Inl e)
          then show ?thesis
            using assms by (simp add: db buildTableName_relative[OF unreg notprim r False])
        next
          case (Inr mainPath)
          from getMainDatabasePath_Inr[OF Inr] show ?thesis
            using proper_registry_update[OF assms r notprim] Inr
            by (simp add: db buildTableName_relative[OF unreg notprim r False])
        qed
      qed
    qed
  qed
qed

lemma options_metadata_traversal:
  "options (metadata_traversal env this calls) = options this"
  by (induction env this calls rule: metadata_traversal.induct) (simp_all add: buildTableName_options)

lemma proper_registry_metadata_traversal:
  "proper_registry env this \<Longrightarrow> proper_registry env (metadata_traversal env this calls)"
  by (induction env this calls rule: metadata_traversal.induct)
     (simp_all add: proper_registry_buildTableName)

lemma constructor_fresh:
  "constructor env opts = Inr d0 \<Longrightarrow> options d0 = opts \<and> attachedDatabases d0 = []"
  by (auto simp: constructor_def loadDependencies_def split: option.splits sum.splits)

lemma reached_proper:
  assumes "constructor env opts = Inr d0"
  shows "proper_registry env (metadata_traversal env d0 calls)"
    and "options (metadata_traversal env d0 calls) = opts"
proof -
  from constructor_fresh[OF assms] have f: "options d0 = opts" "attachedDatabases d0 = []"
    by simp_all
  have "proper_registry env d0"
    using f by (simp add: proper_registry_def)
  then show "proper_registry env (metadata_traversal env d0 calls)"
    by (rule proper_registry_metadata_traversal)
  show "options (metadata_traversal env d0 calls) = opts"
    using f by (simp add: options_metadata_traversal)
qed

lemma not_key_unregistered:
  "k \<notin> fst ` set (attachedDatabases this) \<Longrightarrow>
   \<not> truthy (getAttachedDatabaseHandleByRelativePath this k)"
  using map_of_eq_None_iff[of "attachedDatabases this" k]
  by (simp add: getAttachedDatabaseHandleByRelativePath_def truthy_def)

text \<open>
  Claim C5. In every state that the metadata traversal reaches from a fresh driver,
  \<open>buildTableName\<close> returns the identifier unqualified and leaves the driver unchanged (no
  registry insertion) when the logical database reference is absent, empty, or the
  primary database's own reference; the primary reference is never a key of the registry.
\<close>

theorem primary_and_absent_references_unqualified:
  assumes "constructor env connection_options = Inr d0"
    and "this = metadata_traversal env d0 calls"
  shows "buildTableName env this t s None = (Inr t, this)
       \<and> buildTableName env this t s (Some []) = (Inr t, this)
       \<and> buildTableName env this t s (Some (database connection_options)) = (Inr t, this)
       \<and> database connection_options \<notin> fst ` set (attachedDatabases this)"
proof -
  have p: "proper_registry env this" and o: "options this = connection_options"
    using reached_proper[OF assms(1)] assms(2) by simp_all
  from p have "database (options this) \<notin> fst ` set (attachedDatabases this)"
    unfolding proper_registry_def by blast
  then have k: "database connection_options \<notin> fst ` set (attachedDatabases this)"
    unfolding o .
  from not_key_unregistered[OF k]
  have "buildTableName env this t s (Some (database connection_options)) = (Inr t, this)"
    by (rule buildTableName_primary) (simp only: o)
  moreover have "buildTableName env this t s None = (Inr t, this)"
    by (rule buildTableName_unqualified) (simp add: truthy_def)
  moreover have "buildTableName env this t s (Some []) = (Inr t, this)"
    by (rule buildTableName_unqualified) (simp add: truthy_def)
  ultimately show ?thesis
    using k by blast
qed

text \<open>After one attached database has been registered, a table of the primary database
  \<open>/data/main.db\<close> is still unqualified, and the registry holds the one attachment.\<close>

theorem primary_and_absent_references_unqualified_witness:
  "constructor (test_env []) (test_options ''/data/main.db'') = Inr fresh_driver
   \<and> buildTableName (test_env [])
        (metadata_traversal (test_env []) fresh_driver [(''post'', None, Some ''ext.db'')])
        ''user'' None (Some ''/data/main.db'')
     = (Inr ''user'',
        metadata_traversal (test_env []) fresh_driver [(''post'', None, Some ''ext.db'')])
   \<and> attachedDatabases
        (metadata_traversal (test_env []) fresh_driver [(''post'', None, Some ''ext.db'')])
     = [(''ext.db'',
         \<lparr>attachFilepathAbsolute = ''/data/ext.db'', attachFilepathRelative = ''ext.db'',
          attachHandle = ''6578742e6462''\<rparr>)]"
  using primary_and_absent_references_unqualified [OF fresh_driver_constructed refl,
          where calls = "[(''post'', None, Some ''ext.db'')]" and t = "''user''" and s = None]
  by (simp add: fresh_driver_constructed fresh_driver_ext database_test_options)

lemma getMainDatabasePath_Inl:
  "getMainDatabasePath env this = Inl e \<longleftrightarrow>
   e = TypeError \<and> \<not> isAbsolute env (database (options this))
   \<and> baseDirectory (options this) = None"
  by (auto simp: getMainDatabasePath_def Let_def split: option.splits)

text \<open>
  Claim C9. In every state that the metadata traversal reaches from a fresh driver,
  \<open>buildTableName\<close> throws exactly when the primary path is relative, no \<open>baseDirectory\<close> is
  configured, and the logical database reference is present, relative and not the
  primary reference; it then throws the \<open>TypeError\<close> of \<open>getMainDatabasePath\<close> joining the
  absent base directory, and changes nothing. So the error is unreachable exactly under
  the precondition that \<open>baseDirectory\<close> is set whenever the primary path is relative.
\<close>

theorem missing_baseDirectory_fails:
  assumes "constructor env connection_options = Inr d0"
    and "this = metadata_traversal env d0 calls"
  shows "(case buildTableName env this t s db of
            (Inl e, this') \<Rightarrow>
              e = TypeError \<and> this' = this
              \<and> getMainDatabasePath env this = Inl TypeError
              \<and> truthy db \<and> interpolate db \<noteq> database connection_options
              \<and> \<not> isAbsolute env (interpolate db)
              \<and> \<not> isAbsolute env (database connection_options)
              \<and> baseDirectory connection_options = None
          | (Inr q, this') \<Rightarrow>
              \<not> (truthy db \<and> interpolate db \<noteq> database connection_options
                  \<and> \<not> isAbsolute env (interpolate db)
                  \<and> \<not> isAbsolute env (database connection_options)
                  \<and> baseDirectory connection_options = None))"
proof -
  have p: "proper_registry env this" and o: "options this = connection_options"
    using reached_proper[OF assms(1)] assms(2) by simp_all
  show ?thesis
  proof (cases "truthy db")
    case False
    then show ?thesis by (simp add: buildTableName_unqualified)
  next
    case True
    then obtain r where db: "db = Some r" and r: "r \<noteq> []"
      by (auto simp: truthy_def split: option.splits)
    have i: "interpolate db = r" by (simp add: db interpolate_def)
    show ?thesis
    proof (cases "truthy (getAttachedDatabaseHandleByRelativePath this r)")
      case True
      then have "r \<in> fst ` set (attachedDatabases this)"
        using not_key_unregistered by blast
      with p have "isAbsolute env r \<or> isAbsolute env (database (options this))
            \<or> baseDirectory (options this) \<noteq> None"
        unfolding proper_registry_def by blast
      then have "\<not> (\<not> isAbsolute env r \<and> \<not> isAbsolute env (database connection_options)
                  \<and> baseDirectory connection_options = None)"
        unfolding o by blast
      then show ?thesis
        unfolding db buildTableName_registered[OF True r] i[unfolded db] by simp
    next
      case unreg: False
      show ?thesis
      proof (cases "r = database (options this)")
        case True
        then have "interpolate db = database connection_options"
          unfolding i o .
        then show ?thesis
          unfolding db buildTableName_primary[OF unreg True] by simp
      next
        case notprim: False
        show ?thesis
        proof (cases "isAbsolute env r")
          case True
          then show ?thesis
            unfolding db buildTableName_absolute[OF unreg notprim r True] i[unfolded db] by simp
        next
          case rel: False
          show ?thesis
          proof (cases "getMainDatabasePath env this")
            case (Inl e)
            from Inl[unfolded getMainDatabasePath_Inl o]
            have e: "e = TypeError" and c: "\<not> isAbsolute env (database connection_options)"
              "baseDirectory connection_options = None"
              by simp_all
            have np: "r \<noteq> database connection_options"
              using notprim unfolding o .
            show ?thesis
              unfolding db buildTableName_relative[OF unreg notprim r rel] i[unfolded db] Inl
              using e c True np rel by (simp add: db)
          next
            case (Inr mainPath)
            from getMainDatabasePath_Inr[OF Inr]
            have "isAbsolute env (database connection_options)
                  \<or> baseDirectory connection_options \<noteq> None"
              unfolding o .
            then show ?thesis
              unfolding db buildTableName_relative[OF unreg notprim r rel] i[unfolded db] Inr
              by auto
          qed
        qed
      qed
    qed
  qed
qed

text \<open>The relative primary \<open>main.db\<close> without a base directory: the relative reference
  \<open>ext.db\<close> throws, an absolute reference is resolved.\<close>

theorem missing_baseDirectory_fails_witness:
  "constructor (test_env []) (test_options ''main.db'') = Inr relative_driver
   \<and> buildTableName (test_env [])
        (metadata_traversal (test_env []) relative_driver [(''user'', None, Some ''/var/a.db'')])
        ''post'' None (Some ''ext.db'')
     = (Inl TypeError,
        metadata_traversal (test_env []) relative_driver [(''user'', None, Some ''/var/a.db'')])
   \<and> fst (buildTableName (test_env [])
        (metadata_traversal (test_env []) relative_driver [(''user'', None, Some ''/var/a.db'')])
        ''post'' None (Some ''/var/b.db'')) = Inr ''2f7661722f622e6462.post''"
  using missing_baseDirectory_fails [OF relative_driver_constructed refl,
          where calls = "[(''user'', None, Some ''/var/a.db'')]" and t = "''post''" and s = None
            and db = "Some ''ext.db''"]
  by (simp add: relative_driver_constructed eval_simps relative_driver_def)

subsection \<open>Repeated resolution of one reference\<close>

lemma absFilepath_cong:
  "options a = options b \<Longrightarrow> absFilepath env a r = absFilepath env b r"
  by (simp add: absFilepath_def getMainDatabasePath_def Let_def)

lemma consistent_registry_cong:
  assumes "options a = options b" and "attachedDatabases a = attachedDatabases b"
  shows "consistent_registry env a = consistent_registry env b"
  unfolding consistent_registry_def assms(2) absFilepath_cong[OF assms(1)] assms(1) ..

lemma consistent_entry:
  assumes "consistent_registry env this" and "map_of (attachedDatabases this) r = Some e"
  shows "r \<noteq> [] \<and> r \<noteq> database (options this)
         \<and> (\<exists>a. absFilepath env this r = Inr a \<and> e = new_entry env r a)"
proof -
  from assms(2) have "(r, e) \<in> set (attachedDatabases this)"
    by (rule map_of_SomeD)
  with assms(1) show ?thesis
    unfolding consistent_registry_def by fastforce
qed

lemma consistent_primary_unregistered:
  assumes "consistent_registry env this"
  shows "\<not> truthy (getAttachedDatabaseHandleByRelativePath this (database (options this)))"
proof (cases "map_of (attachedDatabases this) (database (options this))")
  case None
  then show ?thesis
    by (simp add: getAttachedDatabaseHandleByRelativePath_def truthy_def)
next
  case (Some e)
  from consistent_entry[OF assms Some] show ?thesis by simp
qed

lemma buildTableName_consistent_unqualified:
  assumes "consistent_registry env this"
    and "\<not> truthy db \<or> interpolate db = database (options this)"
  shows "buildTableName env this t s db = (Inr t, this)"
proof (cases "truthy db")
  case False
  then show ?thesis by (rule buildTableName_unqualified)
next
  case True
  then obtain r where db: "db = Some r" and r: "r \<noteq> []"
    by (auto simp: truthy_def split: option.splits)
  from assms(2) True have p: "r = database (options this)"
    by (simp add: db interpolate_def)
  have "\<not> truthy (getAttachedDatabaseHandleByRelativePath this r)"
    unfolding p by (rule consistent_primary_unregistered[OF assms(1)])
  then show ?thesis
    unfolding db by (rule buildTableName_primary) (rule p)
qed

lemma buildTableName_consistent_attached:
  assumes "consistent_registry env this"
    and "r \<noteq> []" and "r \<noteq> database (options this)"
  shows "buildTableName env this t s (Some r) =
     (case absFilepath env this r of
        Inl e \<Rightarrow> (Inl e, this)
      | Inr a \<Rightarrow>
          (Inr (filepathToName env r @ ''.'' @ t),
           this\<lparr>attachedDatabases := AList.update r (new_entry env r a) (attachedDatabases this)\<rparr>))"
proof (cases "truthy (getAttachedDatabaseHandleByRelativePath this r)")
  case True
  then obtain e where e: "map_of (attachedDatabases this) r = Some e"
    by (auto simp: getAttachedDatabaseHandleByRelativePath_def truthy_def split: option.splits)
  from consistent_entry[OF assms(1) e] obtain a where a: "absFilepath env this r = Inr a"
    and ea: "e = new_entry env r a" by blast
  have h: "getAttachedDatabaseHandleByRelativePath this r = Some (filepathToName env r)"
    by (simp add: getAttachedDatabaseHandleByRelativePath_def e ea new_entry_def)
  have "AList.update r (new_entry env r a) (attachedDatabases this) = attachedDatabases this"
    by (rule update_triv) (simp add: e ea)
  then have u: "this\<lparr>attachedDatabases :=
                  AList.update r (new_entry env r a) (attachedDatabases this)\<rparr> = this"
    by simp
  show ?thesis
    unfolding buildTableName_registered[OF True assms(2)] a h
    by (simp add: interpolate_def u)
next
  case False
  show ?thesis
  proof (cases "isAbsolute env r")
    case True
    show ?thesis
      unfolding buildTableName_absolute[OF False assms(3) assms(2) True]
      by (simp add: absFilepath_def True)
  next
    case rel: False
    show ?thesis
      unfolding buildTableName_relative[OF False assms(3) assms(2) rel]
      by (simp add: absFilepath_def rel split: sum.splits)
  qed
qed

lemma set_update_subset: "set (AList.update k v al) \<subseteq> insert (k, v) (set al)"
  by (induction al) auto

lemma consistent_registry_update:
  assumes "consistent_registry env this"
    and "r \<noteq> []" and "r \<noteq> database (options this)" and "absFilepath env this r = Inr a"
  shows "consistent_registry env
           (this\<lparr>attachedDatabases := AList.update r (new_entry env r a) (attachedDatabases this)\<rparr>)"
proof -
  let ?this' = "this\<lparr>attachedDatabases := AList.update r (new_entry env r a) (attachedDatabases this)\<rparr>"
  have o: "options ?this' = options this" by simp
  have d: "distinct (map fst (attachedDatabases ?this'))"
    using assms(1) by (simp add: consistent_registry_def distinct_update)
  have "\<forall>kv \<in> insert (r, new_entry env r a) (set (attachedDatabases this)).
            fst kv \<noteq> [] \<and> fst kv \<noteq> database (options this)
            \<and> (\<exists>a. absFilepath env this (fst kv) = Inr a \<and> snd kv = new_entry env (fst kv) a)"
    using assms by (simp add: consistent_registry_def)
  then have "\<forall>kv \<in> set (attachedDatabases ?this').
            fst kv \<noteq> [] \<and> fst kv \<noteq> database (options this)
            \<and> (\<exists>a. absFilepath env this (fst kv) = Inr a \<and> snd kv = new_entry env (fst kv) a)"
    using set_update_subset[of r "new_entry env r a" "attachedDatabases this"] by auto
  with d show ?thesis
    unfolding consistent_registry_def absFilepath_cong[OF o] o by blast
qed

lemma buildTableName_step:
  assumes "consistent_registry env this"
  shows "consistent_registry env (snd (buildTableName env this t s db))
       \<and> options (snd (buildTableName env this t s db)) = options this
       \<and> (\<forall>r e. map_of (attachedDatabases this) r = Some e \<longrightarrow>
             map_of (attachedDatabases (snd (buildTableName env this t s db))) r = Some e)"
proof (cases "\<not> truthy db \<or> interpolate db = database (options this)")
  case True
  show ?thesis
    unfolding buildTableName_consistent_unqualified[OF assms True] using assms by simp
next
  case False
  then obtain r where db: "db = Some r" and r: "r \<noteq> []" and np: "r \<noteq> database (options this)"
    by (auto simp: truthy_def interpolate_def split: option.splits)
  show ?thesis
  proof (cases "absFilepath env this r")
    case (Inl e)
    show ?thesis
      unfolding db buildTableName_consistent_attached[OF assms r np] Inl using assms by simp
  next
    case (Inr a)
    have keep: "\<forall>r' e. map_of (attachedDatabases this) r' = Some e \<longrightarrow>
             map_of (AList.update r (new_entry env r a) (attachedDatabases this)) r' = Some e"
    proof (intro allI impI)
      fix r' e assume m: "map_of (attachedDatabases this) r' = Some e"
      show "map_of (AList.update r (new_entry env r a) (attachedDatabases this)) r' = Some e"
      proof (cases "r' = r")
        case True
        from consistent_entry[OF assms m] Inr have "e = new_entry env r a"
          unfolding True by auto
        then show ?thesis by (simp add: update_conv' True)
      next
        case False
        then show ?thesis by (simp add: update_conv' m)
      qed
    qed
    show ?thesis
      unfolding db buildTableName_consistent_attached[OF assms r np] Inr
      using consistent_registry_update[OF assms r np Inr] keep by simp
  qed
qed

lemma invoke_registry:
  assumes "invoke env c this w = (r, this', w')"
  shows "(options this' = options this \<and> attachedDatabases this' = attachedDatabases this)
       \<or> (\<exists>t s db. this' = snd (buildTableName env this t s db))"
proof (cases c)
  case Connect
  with assms show ?thesis
    by (auto simp: connect_def split: prod.splits sum.splits)
next
  case AfterConnect
  with assms show ?thesis
    by (auto split: prod.splits)
next
  case Disconnect
  with assms show ?thesis
    by (auto simp: disconnect_def Let_def split: prod.splits option.splits)
next
  case (CreateQueryRunner mode)
  with assms show ?thesis
    by (auto simp: createQueryRunner_def split: option.splits)
next
  case (BuildTableName t s db)
  with assms have "this' = snd (buildTableName env this t s db)"
    by (auto split: prod.splits)
  then show ?thesis by blast
qed

lemma invoke_step:
  assumes "consistent_registry env this" and "invoke env c this w = (r, this', w')"
  shows "consistent_registry env this' \<and> options this' = options this
       \<and> (\<forall>k e. map_of (attachedDatabases this) k = Some e \<longrightarrow>
             map_of (attachedDatabases this') k = Some e)"
proof -
  from invoke_registry[OF assms(2)] show ?thesis
  proof
    assume same: "options this' = options this \<and> attachedDatabases this' = attachedDatabases this"
    then have "consistent_registry env this' = consistent_registry env this"
      by (intro consistent_registry_cong) simp_all
    with assms(1) same show ?thesis by simp
  next
    assume "\<exists>t s db. this' = snd (buildTableName env this t s db)"
    then obtain t s db where "this' = snd (buildTableName env this t s db)" by blast
    then show ?thesis
      using buildTableName_step[OF assms(1), of t s db] by simp
  qed
qed

lemma history_step:
  "consistent_registry env this \<Longrightarrow> history env calls this w = (rs, this', w') \<Longrightarrow>
   consistent_registry env this' \<and> options this' = options this
   \<and> (\<forall>k e. map_of (attachedDatabases this) k = Some e \<longrightarrow>
         map_of (attachedDatabases this') k = Some e)"
proof (induction calls arbitrary: this w rs this' w')
  case Nil
  then show ?case by simp
next
  case (Cons c cs)
  obtain r this1 w1 where i: "invoke env c this w = (r, this1, w1)"
    by (cases "invoke env c this w") auto
  obtain rs1 this2 w2 where h: "history env cs this1 w1 = (rs1, this2, w2)"
    by (cases "history env cs this1 w1") auto
  from Cons.prems(2) i h have e: "this' = this2" by auto
  from invoke_step[OF Cons.prems(1) i]
  have c1: "consistent_registry env this1" and o1: "options this1 = options this"
    and k1: "\<forall>k e. map_of (attachedDatabases this) k = Some e \<longrightarrow>
             map_of (attachedDatabases this1) k = Some e"
    by simp_all
  from Cons.IH[OF c1 h]
  have c2: "consistent_registry env this2" and o2: "options this2 = options this1"
    and k2: "\<forall>k e. map_of (attachedDatabases this1) k = Some e \<longrightarrow>
             map_of (attachedDatabases this2) k = Some e"
    by simp_all
  from c2 o1 o2 k1 k2 show ?case
    unfolding e by simp
qed

lemma constructor_consistent:
  assumes "constructor env connection_options = Inr d0"
  shows "consistent_registry env d0 \<and> options d0 = connection_options"
  using constructor_fresh[OF assms] by (simp add: consistent_registry_def)

lemma one_entry:
  "distinct (map fst al) \<Longrightarrow> map_of al k = Some v \<Longrightarrow>
   length (filter (\<lambda>kv. fst kv = k) al) = 1"
proof (induction al)
  case Nil
  then show ?case by simp
next
  case (Cons p al)
  show ?case
  proof (cases "fst p = k")
    case True
    with Cons.prems(1) have "k \<notin> fst ` set al" by auto
    then have "filter (\<lambda>kv. fst kv = k) al = []"
      by (auto simp: filter_empty_conv)
    with True show ?thesis by simp
  next
    case False
    with Cons show ?thesis by (cases p) auto
  qed
qed

text \<open>
  Claim C3. \<open>buildTableName\<close> is idempotent per logical database reference within one
  driver instance. Take a driver the constructor returned, any history of calls of its
  public methods, a call of \<open>buildTableName\<close> for a reference, any further history (other
  references, the same reference again, connects and disconnects), and then the call
  again. The repeated call returns what the first call returned and leaves the driver
  unchanged. When the reference is absent, empty or the primary one, every call returns
  the identifier unqualified. Otherwise the first call either throws, and then every
  later call throws the same error, or it leaves a registry entry for the reference: that
  same entry is still the only one for the reference at the repeated call, its handle is
  \<open>filepathToName\<close> of the reference, and every call for the reference, for any identifier,
  returns the identifier qualified by that handle.
\<close>

theorem buildTableName_idempotent:
  assumes "constructor env connection_options = Inr d0"
    and "history env before d0 w0 = (rs0, this, w)"
    and "buildTableName env this t s db = (res, this1)"
    and "history env between this1 w1 = (rs1, this2, w2)"
  shows "buildTableName env this2 t s db = (res, this2)
       \<and> (case res of
             Inl e \<Rightarrow> this1 = this \<and> (\<forall>t' s'. buildTableName env this2 t' s' db = (Inl e, this2))
           | Inr q \<Rightarrow>
               (if \<not> truthy db \<or> interpolate db = database connection_options
                then q = t \<and> this1 = this
                     \<and> (\<forall>t' s'. buildTableName env this2 t' s' db = (Inr t', this2))
                else (\<exists>entry.
                        map_of (attachedDatabases this1) (interpolate db) = Some entry
                        \<and> map_of (attachedDatabases this2) (interpolate db) = Some entry
                        \<and> attachHandle entry = filepathToName env (interpolate db)
                        \<and> q = attachHandle entry @ ''.'' @ t
                        \<and> (\<forall>t' s'. buildTableName env this2 t' s' db
                                     = (Inr (attachHandle entry @ ''.'' @ t'), this2))
                        \<and> length (filter (\<lambda>kv. fst kv = interpolate db)
                                     (attachedDatabases this2)) = 1)))"
proof -
  from constructor_consistent[OF assms(1)]
  have c0: "consistent_registry env d0" and o0: "options d0 = connection_options" by simp_all
  from history_step[OF c0 assms(2)] o0
  have c: "consistent_registry env this" and o: "options this = connection_options" by simp_all
  have this1: "this1 = snd (buildTableName env this t s db)"
    using assms(3) by simp
  from buildTableName_step[OF c, of t s db]
  have c1: "consistent_registry env this1" and o1: "options this1 = connection_options"
    unfolding this1[symmetric] o by simp_all
  from history_step[OF c1 assms(4)] o1
  have c2: "consistent_registry env this2" and o2: "options this2 = connection_options"
    and k2: "\<forall>k e. map_of (attachedDatabases this1) k = Some e \<longrightarrow>
             map_of (attachedDatabases this2) k = Some e"
    by simp_all
  show ?thesis
  proof (cases "\<not> truthy db \<or> interpolate db = database connection_options")
    case True
    have r1: "res = Inr t" "this1 = this"
      using buildTableName_consistent_unqualified[OF c True[folded o], of t s] assms(3) by simp_all
    have "\<And>t' s'. buildTableName env this2 t' s' db = (Inr t', this2)"
      by (rule buildTableName_consistent_unqualified[OF c2 True[folded o2]])
    with r1 True show ?thesis by simp
  next
    case False
    then obtain r where db: "db = Some r" and r: "r \<noteq> []" and i: "interpolate db = r"
      and np: "r \<noteq> database connection_options"
      by (auto simp: truthy_def interpolate_def split: option.splits)
    have a2: "absFilepath env this2 r = absFilepath env this r"
      by (rule absFilepath_cong) (simp add: o o2)
    show ?thesis
    proof (cases "absFilepath env this r")
      case (Inl e)
      have r1: "res = Inl e" "this1 = this"
        using buildTableName_consistent_attached[OF c r np[folded o], of t s] assms(3)
        by (simp_all add: db Inl)
      have "\<And>t' s'. buildTableName env this2 t' s' db = (Inl e, this2)"
        unfolding db buildTableName_consistent_attached[OF c2 r np[folded o2]] a2 Inl by simp
      with r1 show ?thesis by simp
    next
      case (Inr a)
      let ?e = "new_entry env r a"
      have r1: "res = Inr (filepathToName env r @ ''.'' @ t)"
        "this1 = this\<lparr>attachedDatabases := AList.update r ?e (attachedDatabases this)\<rparr>"
        using buildTableName_consistent_attached[OF c r np[folded o], of t s] assms(3)
        by (simp_all add: db Inr)
      have m1: "map_of (attachedDatabases this1) r = Some ?e"
        unfolding r1(2) by (simp add: update_conv')
      with k2 have m2: "map_of (attachedDatabases this2) r = Some ?e" by blast
      have "AList.update r ?e (attachedDatabases this2) = attachedDatabases this2"
        by (rule update_triv[OF m2])
      then have u: "this2\<lparr>attachedDatabases := AList.update r ?e (attachedDatabases this2)\<rparr>
                    = this2"
        by simp
      have again: "\<And>t' s'. buildTableName env this2 t' s' db
                     = (Inr (filepathToName env r @ ''.'' @ t'), this2)"
        unfolding db buildTableName_consistent_attached[OF c2 r np[folded o2]] a2 Inr
        by (simp add: u)
      have one: "length (filter (\<lambda>kv. fst kv = r) (attachedDatabases this2)) = 1"
        using c2 m2 by (intro one_entry) (simp_all add: consistent_registry_def)
      have h: "attachHandle ?e = filepathToName env r"
        by (simp add: new_entry_def)
      have "\<exists>entry.
                        map_of (attachedDatabases this1) r = Some entry
                        \<and> map_of (attachedDatabases this2) r = Some entry
                        \<and> attachHandle entry = filepathToName env r
                        \<and> filepathToName env r @ ''.'' @ t = attachHandle entry @ ''.'' @ t
                        \<and> (\<forall>t' s'. buildTableName env this2 t' s' db
                                     = (Inr (attachHandle entry @ ''.'' @ t'), this2))
                        \<and> length (filter (\<lambda>kv. fst kv = r) (attachedDatabases this2)) = 1"
        apply (rule exI[of _ ?e])
        using m1 m2 one again unfolding h by simp
      with False r1(1) again show ?thesis
        unfolding i by simp
    qed
  qed
qed

text \<open>A fresh driver: \<open>ext.db\<close> is registered by the first call, then another reference is
  registered and the driver connects and disconnects; the repeated call for \<open>ext.db\<close>
  returns the same qualified name and changes nothing.\<close>

theorem buildTableName_idempotent_witness:
  "fst (buildTableName (test_env []) fresh_driver ''post'' None (Some ''ext.db''))
     = Inr ''6578742e6462.post''
   \<and> fst (history (test_env [])
            [BuildTableName ''user'' None (Some ''other.db''), Connect, Disconnect]
            (snd (buildTableName (test_env []) fresh_driver ''post'' None (Some ''ext.db''))) [])
     = [None, None, None]
   \<and> buildTableName (test_env [])
        (fst (snd (history (test_env [])
            [BuildTableName ''user'' None (Some ''other.db''), Connect, Disconnect]
            (snd (buildTableName (test_env []) fresh_driver ''post'' None (Some ''ext.db''))) [])))
        ''post'' None (Some ''ext.db'')
     = (Inr ''6578742e6462.post'',
        fst (snd (history (test_env [])
            [BuildTableName ''user'' None (Some ''other.db''), Connect, Disconnect]
            (snd (buildTableName (test_env []) fresh_driver ''post'' None (Some ''ext.db''))) [])))
   \<and> map fst (attachedDatabases
        (fst (snd (history (test_env [])
            [BuildTableName ''user'' None (Some ''other.db''), Connect, Disconnect]
            (snd (buildTableName (test_env []) fresh_driver ''post'' None (Some ''ext.db''))) []))))
     = [''ext.db'', ''other.db'']"
  using buildTableName_idempotent
          [where env = "test_env []" and connection_options = "test_options ''/data/main.db''"
             and ?d0.0 = fresh_driver and before = "[]" and ?w0.0 = "[]" and ?rs0.0 = "[]"
             and this = fresh_driver and w = "[]"
             and t = "''post''" and s = None and db = "Some ''ext.db''"
             and res = "Inr ''6578742e6462.post''"
             and ?this1.0 = "snd (buildTableName (test_env []) fresh_driver ''post'' None (Some ''ext.db''))"
             and between = "[BuildTableName ''user'' None (Some ''other.db''), Connect, Disconnect]"
             and ?w1.0 = "[]"]
  by (simp add: eval_simps fresh_driver_def)

subsection \<open>Relative references\<close>

text \<open>
  Claim C2, amended. For every relative logical database reference that needs a new
  registry entry (present, not registered yet, not the primary reference),
  \<open>buildTableName\<close> stores \<open>path.join(D, reference)\<close>, where \<open>D\<close> is the directory of the
  primary database: \<open>path.dirname\<close> of the primary path when that is absolute, and of the
  primary path joined onto \<open>baseDirectory\<close> otherwise (a \<open>TypeError\<close> when there is none). The
  process working directory plays no part. \<open>path.join\<close> normalises, so a leading \<open>..\<close>
  leaves the primary directory.
\<close>

theorem relative_reference_resolved_against_primary_directory:
  assumes "r \<noteq> []" and "\<not> isAbsolute env r" and "r \<noteq> database (options this)"
    and "\<not> truthy (getAttachedDatabaseHandleByRelativePath this r)"
  shows "buildTableName env this t s (Some r) =
     (case (if isAbsolute env (database (options this))
            then Inr (path_dirname (database (options this)))
            else (case baseDirectory (options this) of
                    None \<Rightarrow> Inl TypeError
                  | Some base \<Rightarrow> Inr (path_dirname (path_join [base, database (options this)])))) of
        Inl e \<Rightarrow> (Inl e, this)
      | Inr dir \<Rightarrow>
          (Inr (filepathToName env r @ ''.'' @ t),
           this\<lparr>attachedDatabases :=
             AList.update r
               \<lparr>attachFilepathAbsolute = path_join [dir, r], attachFilepathRelative = r,
                attachHandle = filepathToName env r\<rparr>
               (attachedDatabases this)\<rparr>))"
  unfolding buildTableName_relative[OF assms(4) assms(3) assms(1) assms(2)]
  by (simp add: getMainDatabasePath_def Let_def new_entry_def split: option.splits)

text \<open>With the primary path \<open>/data/main.db\<close>, the reference \<open>shared/ext.db\<close> is stored as
  \<open>/data/shared/ext.db\<close>.\<close>

theorem relative_reference_resolved_against_primary_directory_witness:
  "buildTableName (test_env []) fresh_driver ''post'' None (Some ''shared/ext.db'')
     = (Inr ''7368617265642f6578742e6462.post'',
        fresh_driver\<lparr>attachedDatabases :=
          [(''shared/ext.db'',
            \<lparr>attachFilepathAbsolute = ''/data/shared/ext.db'',
             attachFilepathRelative = ''shared/ext.db'',
             attachHandle = ''7368617265642f6578742e6462''\<rparr>)]\<rparr>)"
  using relative_reference_resolved_against_primary_directory
          [where env = "test_env []" and this = fresh_driver and r = "''shared/ext.db''"
             and t = "''post''" and s = None]
  by (simp add: eval_simps fresh_driver_def)

text \<open>Claim C2 as stated fails at its own example: with the primary path
  \<open>/data/main.db\<close> and the reference \<open>../shared/ext.db\<close> the stored path is
  \<open>/shared/ext.db\<close>, not \<open>/data/shared/ext.db\<close>.\<close>

theorem parent_reference_leaves_primary_directory_counterexample:
  "database (options fresh_driver) = ''/data/main.db''
   \<and> map_option attachFilepathAbsolute
        (map_of (attachedDatabases
                   (snd (buildTableName (test_env []) fresh_driver ''post'' None
                           (Some ''../shared/ext.db''))))
                ''../shared/ext.db'')
       = Some ''/shared/ext.db''
   \<and> ''/shared/ext.db'' \<noteq> ''/data/shared/ext.db''"
  by (simp add: eval_simps fresh_driver_def)

subsection \<open>Two references to one file\<close>









subsection \<open>The stored connection handle\<close>

lemma databaseConnection_buildTableName:
  "databaseConnection (snd (buildTableName env this t s db)) = databaseConnection this"
  by (simp add: buildTableName_def Let_def split: sum.splits)

lemma invoke_databaseConnection:
  assumes "invoke env c this w = (r, this', w')"
  shows "databaseConnection this' \<noteq> None \<longleftrightarrow>
         databaseConnection this \<noteq> None \<or> (c = Connect \<and> r = None)"
proof (cases c)
  case Connect
  with assms show ?thesis
    by (auto simp: connect_def failure_def split: prod.splits sum.splits)
next
  case AfterConnect
  with assms show ?thesis
    by (auto split: prod.splits)
next
  case Disconnect
  with assms show ?thesis
    by (auto simp: disconnect_def Let_def split: prod.splits option.splits)
next
  case (CreateQueryRunner mode)
  with assms show ?thesis
    by (auto simp: createQueryRunner_def split: option.splits)
next
  case (BuildTableName t s db)
  with assms databaseConnection_buildTableName[of env this t s db] show ?thesis
    by (auto split: prod.splits)
qed

lemma history_databaseConnection:
  "history env calls this w = (rs, this', w') \<Longrightarrow>
   (databaseConnection this' \<noteq> None \<longleftrightarrow>
      databaseConnection this \<noteq> None \<or> (Connect, None) \<in> set (zip calls rs))"
proof (induction calls arbitrary: this w rs this' w')
  case Nil
  then show ?case by simp
next
  case (Cons c cs)
  obtain r this1 w1 where i: "invoke env c this w = (r, this1, w1)"
    by (cases "invoke env c this w") auto
  obtain rs1 this2 w2 where h: "history env cs this1 w1 = (rs1, this2, w2)"
    by (cases "history env cs this1 w1") auto
  from Cons.prems i h have e: "rs = r # rs1" "this' = this2"
    by auto
  from Cons.IH[OF h] invoke_databaseConnection[OF i] show ?case
    unfolding e by auto
qed

text \<open>
  Claim C6, amended. After any history of calls on a driver that the constructor
  returned, the driver holds a physical connection handle if and only if some connect of
  the history has succeeded. Disconnect closes the handle but keeps the reference: after
  a disconnect the driver still holds the handle of the last successful connect.
\<close>

theorem handle_held_iff_connect_succeeded:
  assumes "constructor env connection_options = Inr d0"
    and "history env calls d0 w = (rs, this, w')"
  shows "(databaseConnection this \<noteq> None) = ((Connect, None) \<in> set (zip calls rs))"
proof -
  from assms(1) have "databaseConnection d0 = None"
    by (auto simp: constructor_def loadDependencies_def split: option.splits sum.splits)
  with history_databaseConnection[OF assms(2)] show ?thesis by simp
qed

text \<open>A disconnect before any connect fails and leaves no handle; after a connect, a
  disconnect leaves the handle in place.\<close>

theorem handle_held_iff_connect_succeeded_witness:
  "constructor (test_env []) (test_options ''/data/main.db'') = Inr fresh_driver
   \<and> fst (history (test_env []) [Disconnect, Connect, Disconnect] fresh_driver [])
       = [Some TypeError, None, None]
   \<and> databaseConnection
        (fst (snd (history (test_env []) [Disconnect, Connect, Disconnect] fresh_driver [])))
       \<noteq> None
   \<and> databaseConnection (fst (snd (history (test_env []) [Disconnect] fresh_driver []))) = None"
  using handle_held_iff_connect_succeeded
          [OF fresh_driver_constructed, where calls = "[Disconnect, Connect, Disconnect]"
             and w = "[]"]
  by (simp add: fresh_driver_constructed) (simp add: eval_simps fresh_driver_def)

lemma fresh_driver_connect_disconnect:
  "history (test_env []) [Connect, Disconnect] fresh_driver []
   = ([None, None], fresh_driver\<lparr>databaseConnection := Some (Handle 1)\<rparr>,
      [Mkdir ''/data'',
       Open (Binding ''better-sqlite3'') ''/data/main.db''
         \<lparr>opt_readonly = False, opt_fileMustExist = False, opt_timeout = 5000,
          opt_verbose = None, opt_nativeBinding = None\<rparr>,
       Exec (Handle 1) ''PRAGMA foreign_keys = ON'',
       Close (Handle 1)])"
  by (simp add: eval_simps fresh_driver_def)

text \<open>Claim C6 as stated fails: after a successful connect and a completed disconnect the
  driver still holds the handle.\<close>

theorem handle_kept_after_disconnect_counterexample:
  "fst (history (test_env []) [Connect, Disconnect] fresh_driver []) = [None, None]
   \<and> databaseConnection (fst (snd (history (test_env []) [Connect, Disconnect] fresh_driver [])))
       = Some (Handle 1)"
  unfolding fresh_driver_connect_disconnect by simp

end
